theory Spec2Isabelle
  imports Main "HOL-Library.AList" "HOL-Library.Sublist"
begin

section \<open>JavaScript values\<close>

text \<open>
  The values that flow through \<^verbatim>\<open>REST/PhotoFrame/app.js\<close>: request bodies, the JSON
  answers of the Library API, the rejection values of \<^verbatim>\<open>request-promise\<close>. An object is
  an association list in insertion order; assignment to a property is \<open>AList.update\<close>
  (in place when the key exists, appended otherwise) and \<^verbatim>\<open>delete o.k\<close> is
  \<open>AList.delete\<close>. Numbers are integers: the code only counts items and passes status
  codes and page sizes along.
\<close>

datatype jsval =
    Undefined
  | Null
  | JBool bool
  | JNum int
  | JStr string
  | JArr "jsval list"
  | JObj "(string \<times> jsval) list"

type_synonym jsobject = "(string \<times> jsval) list"

text \<open>What a conditional, \<^verbatim>\<open>&&\<close>, \<^verbatim>\<open>||\<close> and \<^verbatim>\<open>filter(x => x)\<close> test.\<close>

fun truthy :: "jsval \<Rightarrow> bool" where
  "truthy Undefined = False"
| "truthy Null = False"
| "truthy (JBool b) = b"
| "truthy (JNum n) = (n \<noteq> 0)"
| "truthy (JStr s) = (s \<noteq> [])"
| "truthy (JArr xs) = True"
| "truthy (JObj kvs) = True"

text \<open>\<^verbatim>\<open>v != null\<close> is false for exactly \<^verbatim>\<open>null\<close> and \<^verbatim>\<open>undefined\<close>.\<close>

fun nullish :: "jsval \<Rightarrow> bool" where
  "nullish Undefined = True"
| "nullish Null = True"
| "nullish v = False"

text \<open>
  What the code can throw or catch: the \<^verbatim>\<open>TypeError\<close> of the runtime (a property read
  on \<^verbatim>\<open>null\<close> or \<^verbatim>\<open>undefined\<close>, a call of something that is not a function), or the
  value a rejected request promise carries.
\<close>

datatype thrown = TypeError | Rejected jsval

text \<open>
  \<open>js_prop v k\<close> is \<^verbatim>\<open>v.k\<close> for a receiver that is neither \<^verbatim>\<open>null\<close> nor
  \<^verbatim>\<open>undefined\<close>. The keys read in this program (\<^verbatim>\<open>mediaItems\<close>, \<^verbatim>\<open>albums\<close>,
  \<^verbatim>\<open>nextPageToken\<close>, \<^verbatim>\<open>mimeType\<close>, \<^verbatim>\<open>error\<close>, \<^verbatim>\<open>name\<close>, \<^verbatim>\<open>statusCode\<close>,
  \<^verbatim>\<open>message\<close>, \<^verbatim>\<open>code\<close>, and in the logger \<^verbatim>\<open>padding\<close> and the text of the level)
  are no built-in properties of strings, numbers, booleans or arrays, so they read
  \<^verbatim>\<open>undefined\<close> there. \<open>js_get\<close> is the read as the runtime does it.
\<close>

fun js_prop :: "jsval \<Rightarrow> string \<Rightarrow> jsval" where
  "js_prop (JObj kvs) k = (case map_of kvs k of None \<Rightarrow> Undefined | Some v \<Rightarrow> v)"
| "js_prop v k = Undefined"

definition js_get :: "jsval \<Rightarrow> string \<Rightarrow> thrown + jsval" where
  "js_get v k = (if nullish v then Inl TypeError else Inr (js_prop v k))"

text \<open>\<^verbatim>\<open>a || b\<close> on values.\<close>

definition js_or :: "jsval \<Rightarrow> jsval \<Rightarrow> jsval" where
  "js_or a b = (if truthy a then a else b)"

text \<open>
  Whether the conversion of a value to a string, as a template literal \<^verbatim>\<open>`${v}`\<close> does
  it, throws a \<^verbatim>\<open>TypeError\<close>. A parsed object with an own property \<^verbatim>\<open>toString\<close> has lost
  the inherited method, and its \<^verbatim>\<open>valueOf\<close>, own or inherited, gives no primitive; an
  array joins the conversions of its elements, with nothing for \<^verbatim>\<open>null\<close> and
  \<^verbatim>\<open>undefined\<close>; every other value converts.
\<close>

fun to_string_throws :: "jsval \<Rightarrow> bool" where
  "to_string_throws (JObj kvs) = (''toString'' \<in> fst ` set kvs)"
| "to_string_throws (JArr xs) = (\<exists>x\<in>set xs. to_string_throws x)"
| "to_string_throws v = False"

section \<open>Configuration and the remote side\<close>

text \<open>
  \<^verbatim>\<open>config.js\<close> is not among the sources; the three values the fetchers read from it
  are parameters of the model. The fourth parameter belongs to the logger of lines 100 to
  108: the text that its format leaves in the key \<^verbatim>\<open>level\<close> of what \<^verbatim>\<open>logger.error\<close>
  is given, which is the level name \<^verbatim>\<open>error\<close>, wrapped in colour codes where the
  terminal has colours.
\<close>

record config =
  photosToLoad :: int
  searchPageSize :: int
  albumPageSize :: int
  level_text :: string

text \<open>
  One awaited call of \<^verbatim>\<open>request.post\<close> or \<^verbatim>\<open>request.get\<close> either resolves with the
  parsed body or rejects with a value. The remote side is the sequence of its replies to
  the successive calls of one fetch. A fetch that asks for a reply beyond the end of the
  given sequence has not returned yet: the model's value is \<open>None\<close>.
\<close>

datatype reply = Resolves jsval | Rejects jsval

datatype loop_end = Completed | Caught thrown

section \<open>The logger\<close>

text \<open>
  The logger is winston's (the package is not among the sources), created with the
  format \<^verbatim>\<open>combine(colorize(), simple())\<close>. Every call but one gives it a string. The
  call \<^verbatim>\<open>logger.error(error)\<close> of the two \<^verbatim>\<open>catch\<close> blocks gives it the error that the
  fetcher returns afterwards, and winston 3 works on the object it is given:
  \<^verbatim>\<open>info = msg && msg.message && msg || {message: msg}; info.level = level\<close>, after which
  the colorizer replaces \<^verbatim>\<open>info.level\<close>. So an error with a truthy \<^verbatim>\<open>message\<close> comes
  back with a key \<^verbatim>\<open>level\<close>; any other error is wrapped and stays as it is.
\<close>

definition logged :: "config \<Rightarrow> jsval \<Rightarrow> jsval" where
  "logged cfg v =
     (if truthy v \<and> truthy (js_prop v ''message'')
      then (case v of
              JObj kvs \<Rightarrow> JObj (AList.update ''level'' (JStr (level_text cfg)) kvs)
            | _ \<Rightarrow> v)
      else v)"

text \<open>
  The format \<^verbatim>\<open>simple()\<close> then prints, within the same call,
  \<^verbatim>\<open>`${info.level}:${padding} ${info.message}`\<close> with
  \<^verbatim>\<open>padding = info.padding && info.padding[info.level] || ''\<close>: the call throws when one of
  these conversions does.
\<close>

definition logger_throws :: "config \<Rightarrow> jsval \<Rightarrow> bool" where
  "logger_throws cfg v =
     (if truthy v \<and> truthy (js_prop v ''message'')
      then (let info = logged cfg v;
                pad = js_prop info ''padding'';
                padding = js_or (if truthy pad then js_prop pad (level_text cfg) else pad) (JStr [])
            in to_string_throws padding \<or> to_string_throws (js_prop info ''message''))
      else to_string_throws v)"

text \<open>\<^verbatim>\<open>logger.error(error)\<close>: the error as the call leaves it, or what the call throws.\<close>

definition logger_error :: "config \<Rightarrow> jsval \<Rightarrow> thrown + jsval" where
  "logger_error cfg v = (if logger_throws cfg v then Inl TypeError else Inr (logged cfg v))"

section \<open>libraryApiSearch\<close>

text \<open>
  The second filter of the page, \<^verbatim>\<open>x => x.mimeType && x.mimeType.startsWith('image/')\<close>,
  on an item that passed \<^verbatim>\<open>filter(x => x)\<close>. A truthy \<^verbatim>\<open>mimeType\<close> that is not a string
  has no \<^verbatim>\<open>startsWith\<close>, and the call throws.
\<close>

definition image_mimeType :: "jsval \<Rightarrow> thrown + bool" where
  "image_mimeType x =
     (let m = js_prop x ''mimeType'' in
      if \<not> truthy m then Inr False
      else case m of JStr s \<Rightarrow> Inr (prefix ''image/'' s) | _ \<Rightarrow> Inl TypeError)"

fun filter_images :: "jsval list \<Rightarrow> thrown + jsval list" where
  "filter_images [] = Inr []"
| "filter_images (x # xs) =
     (case image_mimeType x of
        Inl t \<Rightarrow> Inl t
      | Inr keep \<Rightarrow>
          (case filter_images xs of
             Inl t \<Rightarrow> Inl t
           | Inr ys \<Rightarrow> Inr (if keep then x # ys else ys)))"

text \<open>
  \<^verbatim>\<open>const items = result && result.mediaItems ? result.mediaItems.filter(..).filter(..) : []\<close>.
  A truthy \<^verbatim>\<open>mediaItems\<close> that is not an array has no \<^verbatim>\<open>filter\<close>.
\<close>

definition search_items :: "jsval \<Rightarrow> thrown + jsval list" where
  "search_items result =
     (if truthy result \<and> truthy (js_prop result ''mediaItems'')
      then (case js_prop result ''mediaItems'' of
              JArr xs \<Rightarrow> filter_images (filter truthy xs)
            | _ \<Rightarrow> Inl TypeError)
      else Inr [])"

text \<open>
  The \<^verbatim>\<open>do ... while\<close> loop inside the \<^verbatim>\<open>try\<close>, one reply per round. Each round posts
  the object \<^verbatim>\<open>parameters\<close> as it is then; \<open>posted\<close> collects these bodies in order.
  The loop ends either because its condition is false (\<open>Completed\<close>) or because
  something was thrown (\<open>Caught\<close>); the locals \<^verbatim>\<open>photos\<close> and \<^verbatim>\<open>parameters\<close> are
  returned as they are at that moment. A resolved page is first converted to a string for
  \<^verbatim>\<open>logger.debug(`Response: ${result}`)\<close>. \<^verbatim>\<open>photos = photos.concat(items)\<close> comes before
  the read of \<^verbatim>\<open>result.nextPageToken\<close>, which throws when \<^verbatim>\<open>result\<close> is \<^verbatim>\<open>null\<close> or
  \<^verbatim>\<open>undefined\<close>.
\<close>

fun search_loop ::
  "config \<Rightarrow> reply list \<Rightarrow> jsval list \<Rightarrow> jsobject \<Rightarrow> jsobject list \<Rightarrow>
   (jsval list \<times> jsobject \<times> loop_end \<times> jsobject list) option"
where
  "search_loop cfg [] photos parameters posted = None"
| "search_loop cfg (Rejects err # rest) photos parameters posted =
     Some (photos, parameters, Caught (Rejected err), posted @ [parameters])"
| "search_loop cfg (Resolves result # rest) photos parameters posted =
     (if to_string_throws result
      then Some (photos, parameters, Caught TypeError, posted @ [parameters])
      else
        (case search_items result of
           Inl t \<Rightarrow> Some (photos, parameters, Caught t, posted @ [parameters])
         | Inr items \<Rightarrow>
             (let photos' = photos @ items in
              case js_get result ''nextPageToken'' of
                Inl t \<Rightarrow> Some (photos', parameters, Caught t, posted @ [parameters])
              | Inr token \<Rightarrow>
                  (let parameters' = AList.update ''pageToken'' token parameters in
                   if int (length photos') < photosToLoad cfg \<and> \<not> nullish token
                   then search_loop cfg rest photos' parameters' (posted @ [parameters])
                   else Some (photos', parameters', Completed, posted @ [parameters])))))"

text \<open>
  The \<^verbatim>\<open>catch\<close> block of both fetchers:
  \<^verbatim>\<open>error = err.error.error || {name: err.name, code: err.statusCode, message: err.message};
  logger.error(error)\<close>.
  The two reads of \<^verbatim>\<open>error\<close> happen first, and each throws on \<^verbatim>\<open>null\<close> or
  \<^verbatim>\<open>undefined\<close>; a \<^verbatim>\<open>TypeError\<close> of the runtime has no \<^verbatim>\<open>error\<close> property. Nothing
  encloses the \<^verbatim>\<open>catch\<close> block, so what it throws leaves the function.
\<close>

definition catch_error :: "config \<Rightarrow> thrown \<Rightarrow> thrown + jsval" where
  "catch_error cfg err =
     (case err of
        TypeError \<Rightarrow> Inl TypeError
      | Rejected e \<Rightarrow>
          (case js_get e ''error'' of
             Inl t \<Rightarrow> Inl t
           | Inr inner \<Rightarrow>
               (case js_get inner ''error'' of
                  Inl t \<Rightarrow> Inl t
                | Inr payload \<Rightarrow>
                    logger_error cfg
                      (js_or payload
                         (JObj [(''name'', js_prop e ''name''),
                                (''code'', js_prop e ''statusCode''),
                                (''message'', js_prop e ''message'')])))))"

record search_data =
  photos :: "jsval list"
  parameters :: jsobject
  error :: jsval

text \<open>
  \<^verbatim>\<open>libraryApiSearch(authToken, parameters)\<close>. The bearer token only travels in the
  request. \<open>params\<close> is the caller's object \<^verbatim>\<open>parameters\<close>, changed in place; the field
  \<open>parameters\<close> of the result is that object as the function leaves it. \<open>Inl\<close> is an
  exception that leaves the function.
\<close>

definition libraryApiSearch :: "config \<Rightarrow> reply list \<Rightarrow> jsobject \<Rightarrow> (thrown + search_data) option" where
  "libraryApiSearch cfg replies params =
     (case search_loop cfg replies []
             (AList.update ''pageSize'' (JNum (searchPageSize cfg)) params) [] of
        None \<Rightarrow> None
      | Some (found, params', Completed, sent) \<Rightarrow>
          Some (Inr \<lparr>photos = found, parameters = params', error = Null\<rparr>)
      | Some (found, params', Caught err, sent) \<Rightarrow>
          (case catch_error cfg err of
             Inl t \<Rightarrow> Some (Inl t)
           | Inr e \<Rightarrow> Some (Inr \<lparr>photos = found, parameters = params', error = e\<rparr>)))"

text \<open>The bodies of the requests that this call of \<^verbatim>\<open>libraryApiSearch\<close> posts, in order.\<close>

definition search_posted :: "config \<Rightarrow> reply list \<Rightarrow> jsobject \<Rightarrow> jsobject list option" where
  "search_posted cfg replies params =
     (case search_loop cfg replies []
             (AList.update ''pageSize'' (JNum (searchPageSize cfg)) params) [] of
        None \<Rightarrow> None
      | Some (found, params', ending, sent) \<Rightarrow> Some sent)"

section \<open>libraryApiGetAlbums\<close>

text \<open>
  \<^verbatim>\<open>if (result && result.albums) { const items = result.albums.filter(x => !!x); ... }\<close>:
  the albums one page contributes.
\<close>

definition album_items :: "jsval \<Rightarrow> thrown + jsval list" where
  "album_items result =
     (if truthy result \<and> truthy (js_prop result ''albums'')
      then (case js_prop result ''albums'' of
              JArr xs \<Rightarrow> Inr (filter truthy xs)
            | _ \<Rightarrow> Inl TypeError)
      else Inr [])"

text \<open>
  The loop of \<^verbatim>\<open>libraryApiGetAlbums\<close>: its only condition is the page token.
  \<open>params\<close> is the local \<^verbatim>\<open>parameters\<close>, the query string of each request; \<open>queried\<close>
  collects these in order. A resolved page is first converted to a string for
  \<^verbatim>\<open>logger.debug(`Response: ${result}`)\<close>.
\<close>

fun albums_loop ::
  "reply list \<Rightarrow> jsval list \<Rightarrow> jsobject \<Rightarrow> jsobject list \<Rightarrow>
   (jsval list \<times> jsobject \<times> loop_end \<times> jsobject list) option"
where
  "albums_loop [] albums params queried = None"
| "albums_loop (Rejects err # rest) albums params queried =
     Some (albums, params, Caught (Rejected err), queried @ [params])"
| "albums_loop (Resolves result # rest) albums params queried =
     (if to_string_throws result
      then Some (albums, params, Caught TypeError, queried @ [params])
      else
        (case album_items result of
           Inl t \<Rightarrow> Some (albums, params, Caught t, queried @ [params])
         | Inr items \<Rightarrow>
             (let albums' = albums @ items in
              case js_get result ''nextPageToken'' of
                Inl t \<Rightarrow> Some (albums', params, Caught t, queried @ [params])
              | Inr token \<Rightarrow>
                  (let params' = AList.update ''pageToken'' token params in
                   if \<not> nullish token
                   then albums_loop rest albums' params' (queried @ [params])
                   else Some (albums', params', Completed, queried @ [params])))))"

text \<open>
  The object \<^verbatim>\<open>{albums, error}\<close> that \<^verbatim>\<open>libraryApiGetAlbums\<close> returns; the second field
  is \<^verbatim>\<open>error\<close> in the source.
\<close>

record albums_data =
  albums :: "jsval list"
  albums_error :: jsval

definition libraryApiGetAlbums :: "config \<Rightarrow> reply list \<Rightarrow> (thrown + albums_data) option" where
  "libraryApiGetAlbums cfg replies =
     (case albums_loop replies [] [(''pageSize'', JNum (albumPageSize cfg))] [] of
        None \<Rightarrow> None
      | Some (found, params', Completed, sent) \<Rightarrow>
          Some (Inr \<lparr>albums = found, albums_error = Null\<rparr>)
      | Some (found, params', Caught err, sent) \<Rightarrow>
          (case catch_error cfg err of
             Inl t \<Rightarrow> Some (Inl t)
           | Inr e \<Rightarrow> Some (Inr \<lparr>albums = found, albums_error = e\<rparr>)))"

text \<open>The query strings of the requests that this call of \<^verbatim>\<open>libraryApiGetAlbums\<close> makes.\<close>

definition albums_queried :: "config \<Rightarrow> reply list \<Rightarrow> jsobject list option" where
  "albums_queried cfg replies =
     (case albums_loop replies [] [(''pageSize'', JNum (albumPageSize cfg))] [] of
        None \<Rightarrow> None
      | Some (found, params', ending, sent) \<Rightarrow> Some sent)"

text \<open>The value \<^verbatim>\<open>data\<close> as it is sent and cached by \<^verbatim>\<open>/getAlbums\<close>.\<close>

definition albums_object :: "albums_data \<Rightarrow> jsval" where
  "albums_object data = JObj [(''albums'', JArr (albums data)), (''error'', albums_error data)]"

section \<open>The three stores\<close>

text \<open>
  Modelled from the spec: the store behind \<^verbatim>\<open>persist.create\<close> (the package
  \<^verbatim>\<open>node-persist\<close>, which is not among the sources). Section 4.2 of the specification
  gives its contract: one slot per key, \<^verbatim>\<open>set\<close> overwrites, every entry of a store
  created with a TTL carries the instant at which that TTL will have elapsed, and
  \<^verbatim>\<open>get\<close> treats the entry as absent once it has, the expiry being evaluated when the
  entry is read. A store created without a TTL keeps its entries. Time is in milliseconds.
  The specification does not say which way the instant of expiry itself counts; here the
  entry is absent from that instant on.
\<close>

record 'v persist =
  ttl :: "nat option"
  items :: "string \<rightharpoonup> 'v \<times> nat option"

text \<open>Modelled from the spec: \<^verbatim>\<open>persist.create({dir, ttl})\<close>, an empty store; the directory is left out.\<close>

definition create :: "nat option \<Rightarrow> 'v persist" where
  "create t = \<lparr>ttl = t, items = Map.empty\<rparr>"

text \<open>
  Modelled from the spec: \<^verbatim>\<open>setItemSync(key, value)\<close> at the instant \<open>now\<close>. It overwrites
  the slot of the key and notes when the TTL of the store, if it has one, will have elapsed.
\<close>

definition setItemSync :: "'v persist \<Rightarrow> nat \<Rightarrow> string \<Rightarrow> 'v \<Rightarrow> 'v persist" where
  "setItemSync c now k v = c\<lparr>items := (items c)(k \<mapsto> (v, map_option (\<lambda>t. now + t) (ttl c)))\<rparr>"

text \<open>
  Modelled from the spec: \<^verbatim>\<open>getItem(key)\<close> at the instant \<open>now\<close>. The expiry is
  evaluated here, at the read.
\<close>

definition getItem :: "'v persist \<Rightarrow> nat \<Rightarrow> string \<Rightarrow> 'v option" where
  "getItem c now k =
     (case items c k of
        None \<Rightarrow> None
      | Some (v, None) \<Rightarrow> Some v
      | Some (v, Some expiry) \<Rightarrow> if expiry \<le> now then None else Some v)"

text \<open>Modelled from the spec: \<^verbatim>\<open>removeItem(key)\<close>.\<close>

definition removeItem :: "'v persist \<Rightarrow> string \<Rightarrow> 'v persist" where
  "removeItem c k = c\<lparr>items := (items c)(k := None)\<rparr>"

text \<open>A key without a visible entry reads as \<^verbatim>\<open>undefined\<close>.\<close>

definition or_undefined :: "jsval option \<Rightarrow> jsval" where
  "or_undefined r = (case r of None \<Rightarrow> Undefined | Some v \<Rightarrow> v)"

text \<open>
  The module-level stores of \<^verbatim>\<open>app.js\<close> and the clock they read. The two caches hold
  values; \<^verbatim>\<open>storage\<close> holds records \<^verbatim>\<open>{parameters: searchParameter}\<close>, written only by
  \<^verbatim>\<open>returnPhotos\<close>, and its model keeps the object in the field \<^verbatim>\<open>parameters\<close> of each
  record. The clock does not move while a handler runs.
\<close>

record state =
  mediaItemCache :: "jsval persist"
  albumCache :: "jsval persist"
  storage :: "jsobject persist"
  clock :: nat

text \<open>The stores as lines 49 to 79 create them, empty, at some instant.\<close>

definition start :: "nat \<Rightarrow> state" where
  "start t =
     \<lparr>mediaItemCache = create (Some 3300000),
      albumCache = create (Some 600000),
      storage = create None,
      clock = t\<rparr>"

section \<open>The handlers\<close>

text \<open>
  \<^verbatim>\<open>res.status(c).send(b)\<close>: the two values as the handler passes them. What the
  framework does with a status that is no HTTP status code is not part of the model.
\<close>

record response =
  status :: jsval
  body :: jsval

text \<open>
  \<^verbatim>\<open>returnError(res, data)\<close> reads only \<^verbatim>\<open>data.error\<close>, which is the argument here.
\<close>

definition returnError :: "jsval \<Rightarrow> thrown + response" where
  "returnError err =
     (case js_get err ''code'' of
        Inl t \<Rightarrow> Inl t
      | Inr code \<Rightarrow> Inr \<lparr>status = js_or code (JNum 500), body = err\<rparr>)"

text \<open>
  \<^verbatim>\<open>returnPhotos(res, userId, data, searchParameter)\<close>. The two \<^verbatim>\<open>delete\<close> statements
  change the caller's object before it is stored and sent.
\<close>

definition returnPhotos :: "state \<Rightarrow> string \<Rightarrow> search_data \<Rightarrow> jsobject \<Rightarrow> thrown + state \<times> response" where
  "returnPhotos st userId data searchParameter =
     (if truthy (error data)
      then (case returnError (error data) of
              Inl t \<Rightarrow> Inl t
            | Inr res \<Rightarrow> Inr (st, res))
      else
        (let searchParameter' =
               AList.delete ''pageSize'' (AList.delete ''pageToken'' searchParameter)
         in Inr (st\<lparr>mediaItemCache :=
                       setItemSync (mediaItemCache st) (clock st) userId (JArr (photos data)),
                     storage :=
                       setItemSync (storage st) (clock st) userId searchParameter'\<rparr>,
                 \<lparr>status = JNum 200,
                  body = JObj [(''photos'', JArr (photos data)),
                               (''parameters'', JObj searchParameter')]\<rparr>)))"

text \<open>
  The common end of \<^verbatim>\<open>/loadFromSearch\<close>, \<^verbatim>\<open>/loadFromAlbum\<close> and the replay of
  \<^verbatim>\<open>/getQueue\<close>: \<^verbatim>\<open>const data = await libraryApiSearch(authToken, p); returnPhotos(res,
  userId, data, p)\<close>. The object \<^verbatim>\<open>p\<close> that \<^verbatim>\<open>returnPhotos\<close> receives is the one the
  fetcher has changed, so it is \<open>parameters data\<close>.
\<close>

definition search_and_return ::
  "config \<Rightarrow> state \<Rightarrow> reply list \<Rightarrow> string \<Rightarrow> jsobject \<Rightarrow> (thrown + state \<times> response) option"
where
  "search_and_return cfg st replies userId p =
     (case libraryApiSearch cfg replies p of
        None \<Rightarrow> None
      | Some (Inl t) \<Rightarrow> Some (Inl t)
      | Some (Inr data) \<Rightarrow> Some (returnPhotos st userId data (parameters data)))"

text \<open>
  \<^verbatim>\<open>/loadFromSearch\<close>. How lines 230 to 266 read and log the form and build
  \<^verbatim>\<open>filters\<close> from it is left out; \<open>filters\<close> is the object they build.
\<close>

definition loadFromSearch ::
  "config \<Rightarrow> state \<Rightarrow> reply list \<Rightarrow> string \<Rightarrow> jsval \<Rightarrow> (thrown + state \<times> response) option"
where
  "loadFromSearch cfg st replies userId filters =
     search_and_return cfg st replies userId [(''filters'', filters)]"

text \<open>
  \<^verbatim>\<open>/loadFromAlbum\<close>: \<^verbatim>\<open>const parameters = {albumId}\<close>, after
  \<^verbatim>\<open>logger.info(`Importing album: ${albumId}`)\<close> has converted the identifier to a
  string. A throw there comes before any request.
\<close>

definition loadFromAlbum ::
  "config \<Rightarrow> state \<Rightarrow> reply list \<Rightarrow> string \<Rightarrow> jsval \<Rightarrow> (thrown + state \<times> response) option"
where
  "loadFromAlbum cfg st replies userId albumId =
     (if to_string_throws albumId then Some (Inl TypeError)
      else search_and_return cfg st replies userId [(''albumId'', albumId)])"

text \<open>
  \<^verbatim>\<open>/getAlbums\<close>. On the error branch the response is sent first and the entry removed
  after it.
\<close>

definition getAlbums ::
  "config \<Rightarrow> state \<Rightarrow> reply list \<Rightarrow> string \<Rightarrow> (thrown + state \<times> response) option"
where
  "getAlbums cfg st replies userId =
     (let cachedAlbums = or_undefined (getItem (albumCache st) (clock st) userId) in
      if truthy cachedAlbums
      then Some (Inr (st, \<lparr>status = JNum 200, body = cachedAlbums\<rparr>))
      else
        (case libraryApiGetAlbums cfg replies of
           None \<Rightarrow> None
         | Some (Inl t) \<Rightarrow> Some (Inl t)
         | Some (Inr data) \<Rightarrow>
             if truthy (albums_error data)
             then (case returnError (albums_error data) of
                     Inl t \<Rightarrow> Some (Inl t)
                   | Inr res \<Rightarrow>
                       Some (Inr (st\<lparr>albumCache := removeItem (albumCache st) userId\<rparr>, res)))
             else Some (Inr (st\<lparr>albumCache :=
                                   setItemSync (albumCache st) (clock st) userId
                                     (albums_object data)\<rparr>,
                             \<lparr>status = JNum 200, body = albums_object data\<rparr>))))"

text \<open>
  \<^verbatim>\<open>/getQueue\<close>. Both stores are read first. On the first branch \<^verbatim>\<open>stored.parameters\<close>
  is read without a test of \<^verbatim>\<open>stored\<close>, which is \<^verbatim>\<open>undefined\<close> when the store has no
  record for the user; the second branch tests \<^verbatim>\<open>stored && stored.parameters\<close>.
\<close>

definition getQueue ::
  "config \<Rightarrow> state \<Rightarrow> reply list \<Rightarrow> string \<Rightarrow> (thrown + state \<times> response) option"
where
  "getQueue cfg st replies userId =
     (let cachedPhotos = or_undefined (getItem (mediaItemCache st) (clock st) userId);
          stored = getItem (storage st) (clock st) userId
      in
      if truthy cachedPhotos
      then (case stored of
              None \<Rightarrow> Some (Inl TypeError)
            | Some p \<Rightarrow>
                Some (Inr (st, \<lparr>status = JNum 200,
                                body = JObj [(''photos'', cachedPhotos),
                                             (''parameters'', JObj p)]\<rparr>)))
      else
        (case stored of
           Some p \<Rightarrow>
             if truthy (JObj p)
             then search_and_return cfg st replies userId p
             else Some (Inr (st, \<lparr>status = JNum 200, body = JObj []\<rparr>))
         | None \<Rightarrow> Some (Inr (st, \<lparr>status = JNum 200, body = JObj []\<rparr>))))"

text \<open>
  The states the application can be in: it starts with empty stores, time passes, and the
  four handlers run to their response. A handler that throws has written nothing.
\<close>

inductive reachable :: "config \<Rightarrow> state \<Rightarrow> bool" for cfg :: config where
  reach_start: "reachable cfg (start t)"
| reach_tick: "reachable cfg st \<Longrightarrow> reachable cfg (st\<lparr>clock := clock st + d\<rparr>)"
| reach_loadFromSearch:
    "reachable cfg st \<Longrightarrow> loadFromSearch cfg st replies userId filters = Some (Inr (st', res))
     \<Longrightarrow> reachable cfg st'"
| reach_loadFromAlbum:
    "reachable cfg st \<Longrightarrow> loadFromAlbum cfg st replies userId albumId = Some (Inr (st', res))
     \<Longrightarrow> reachable cfg st'"
| reach_getAlbums:
    "reachable cfg st \<Longrightarrow> getAlbums cfg st replies userId = Some (Inr (st', res))
     \<Longrightarrow> reachable cfg st'"
| reach_getQueue:
    "reachable cfg st \<Longrightarrow> getQueue cfg st replies userId = Some (Inr (st', res))
     \<Longrightarrow> reachable cfg st'"

section \<open>Pages and errors in the statements\<close>

text \<open>
  What the statements below say about one resolved page of \<^verbatim>\<open>mediaItems:search\<close>: the
  items the loop appends for it, the token it carries, and whether the loop body reads it
  to the end without a throw. \<open>collected\<close> is what the loop has appended after a
  sequence of pages; \<open>image_item\<close> says that an item has a string \<^verbatim>\<open>mimeType\<close> that
  starts with \<^verbatim>\<open>image/\<close>.
\<close>

definition page_items :: "jsval \<Rightarrow> jsval list" where
  "page_items result = (case search_items result of Inl t \<Rightarrow> [] | Inr xs \<Rightarrow> xs)"

definition page_token :: "jsval \<Rightarrow> jsval" where
  "page_token result = js_prop result ''nextPageToken''"

definition readable :: "jsval \<Rightarrow> bool" where
  "readable result =
     (\<not> to_string_throws result
      \<and> (case search_items result of Inl t \<Rightarrow> False | Inr xs \<Rightarrow> \<not> nullish result))"

definition collected :: "jsval list \<Rightarrow> jsval list" where
  "collected results = concat (map page_items results)"

text \<open>
  The requests made with an object \<open>p\<close> while the pages \<open>results\<close> come in and keep
  the loop going: the first carries \<open>p\<close>, and the one after each page carries \<open>p\<close> with
  the token of that page as its \<^verbatim>\<open>pageToken\<close>.
\<close>

definition requests :: "jsobject \<Rightarrow> jsval list \<Rightarrow> jsobject list" where
  "requests p results = p # map (\<lambda>r. AList.update ''pageToken'' (page_token r) p) results"

definition image_item :: "jsval \<Rightarrow> bool" where
  "image_item x = (case js_prop x ''mimeType'' of JStr s \<Rightarrow> prefix ''image/'' s | _ \<Rightarrow> False)"

text \<open>The same for one resolved page of \<^verbatim>\<open>albums\<close>.\<close>

definition album_page_items :: "jsval \<Rightarrow> jsval list" where
  "album_page_items result = (case album_items result of Inl t \<Rightarrow> [] | Inr xs \<Rightarrow> xs)"

definition listable :: "jsval \<Rightarrow> bool" where
  "listable result =
     (\<not> to_string_throws result
      \<and> (case album_items result of Inl t \<Rightarrow> False | Inr xs \<Rightarrow> \<not> nullish result))"

definition listed :: "jsval list \<Rightarrow> jsval list" where
  "listed results = concat (map album_page_items results)"

text \<open>
  What the \<^verbatim>\<open>catch\<close> block assigns to \<^verbatim>\<open>error\<close> for a rejection value \<open>e\<close> when both
  reads of \<^verbatim>\<open>error\<close> succeed: the nested payload if it is truthy, the fields of \<open>e\<close>
  otherwise. \<open>structured\<close> is that error after the logger has had it.
\<close>

definition caught :: "jsval \<Rightarrow> jsval" where
  "caught e =
     js_or (js_prop (js_prop e ''error'') ''error'')
       (JObj [(''name'', js_prop e ''name''), (''code'', js_prop e ''statusCode''),
              (''message'', js_prop e ''message'')])"

definition structured :: "config \<Rightarrow> jsval \<Rightarrow> jsval" where
  "structured cfg e = logged cfg (caught e)"

section \<open>What holds in every reachable state\<close>

text \<open>
  The stores keep the TTL they were created with; a record of \<^verbatim>\<open>storage\<close> never
  expires and its parameters have neither a \<^verbatim>\<open>pageToken\<close> nor a \<^verbatim>\<open>pageSize\<close>; a user
  with an entry in the media-item cache has a record in \<^verbatim>\<open>storage\<close>, and the entry is
  an array; an entry of the album cache is an object.
\<close>

definition consistent :: "state \<Rightarrow> bool" where
  "consistent st \<longleftrightarrow>
     ttl (mediaItemCache st) = Some 3300000 \<and> ttl (albumCache st) = Some 600000
     \<and> ttl (storage st) = None
     \<and> (\<forall>u p e. items (storage st) u = Some (p, e) \<longrightarrow>
           e = None \<and> ''pageToken'' \<notin> fst ` set p \<and> ''pageSize'' \<notin> fst ` set p)
     \<and> (\<forall>u v e. items (mediaItemCache st) u = Some (v, e) \<longrightarrow>
           (\<exists>xs. v = JArr xs) \<and> items (storage st) u \<noteq> None)
     \<and> (\<forall>u v e. items (albumCache st) u = Some (v, e) \<longrightarrow> (\<exists>kvs. v = JObj kvs))"

section \<open>The loop of libraryApiSearch\<close>

text \<open>One round of the loop on a page that is read without a throw.\<close>

lemma search_loop_page:
  assumes "readable r"
  shows "search_loop cfg (Resolves r # rest) acc ps sent =
           (if int (length (acc @ page_items r)) < photosToLoad cfg \<and> \<not> nullish (page_token r)
            then search_loop cfg rest (acc @ page_items r)
                   (AList.update ''pageToken'' (page_token r) ps) (sent @ [ps])
            else Some (acc @ page_items r, AList.update ''pageToken'' (page_token r) ps,
                       Completed, sent @ [ps]))"
  using assms
  by (auto simp: readable_def page_items_def page_token_def js_get_def Let_def split: sum.splits)

text \<open>
  Which pages are read without a throw: values other than \<^verbatim>\<open>null\<close> and \<^verbatim>\<open>undefined\<close>
  that convert to a string and whose \<^verbatim>\<open>mediaItems\<close>, when truthy, is an array in which
  the \<^verbatim>\<open>mimeType\<close> of every truthy entry is falsy or a string.
\<close>

lemma filter_images_Inr:
  "(\<exists>ys. filter_images xs = Inr ys) \<longleftrightarrow>
   (\<forall>x\<in>set xs. \<not> truthy (js_prop x ''mimeType'') \<or> (\<exists>s. js_prop x ''mimeType'' = JStr s))"
proof (induction xs)
  case Nil
  then show ?case by simp
next
  case (Cons x xs)
  have "(\<exists>b. image_mimeType x = Inr b) \<longleftrightarrow>
        \<not> truthy (js_prop x ''mimeType'') \<or> (\<exists>s. js_prop x ''mimeType'' = JStr s)"
    by (cases "js_prop x ''mimeType''") (auto simp: image_mimeType_def Let_def)
  with Cons show ?case
    by (cases "image_mimeType x"; cases "filter_images xs") auto
qed

lemma readable_iff:
  "readable r \<longleftrightarrow>
     \<not> nullish r \<and> \<not> to_string_throws r
     \<and> (truthy r \<and> truthy (js_prop r ''mediaItems'') \<longrightarrow>
          (\<exists>xs. js_prop r ''mediaItems'' = JArr xs
             \<and> (\<forall>x\<in>set xs. truthy x \<longrightarrow>
                   \<not> truthy (js_prop x ''mimeType'') \<or> (\<exists>s. js_prop x ''mimeType'' = JStr s))))"
proof (cases "truthy r \<and> truthy (js_prop r ''mediaItems'')")
  case False
  then show ?thesis by (auto simp: readable_def search_items_def)
next
  case True
  show ?thesis
  proof (cases "js_prop r ''mediaItems''")
    case (JArr xs)
    have "(\<exists>ys. filter_images (filter truthy xs) = Inr ys) \<longleftrightarrow>
          (\<forall>x\<in>set xs. truthy x \<longrightarrow>
             \<not> truthy (js_prop x ''mimeType'') \<or> (\<exists>s. js_prop x ''mimeType'' = JStr s))"
      unfolding filter_images_Inr by auto
    with True JArr show ?thesis
      by (cases "filter_images (filter truthy xs)") (auto simp: readable_def search_items_def)
  qed (use True in \<open>auto simp: readable_def search_items_def\<close>)
qed

text \<open>
  What a page contributes: the truthy entries of its \<^verbatim>\<open>mediaItems\<close> array that are
  images.
\<close>

lemma page_items_array:
  assumes "readable r" and "js_prop r ''mediaItems'' = JArr xs"
  shows "page_items r = filter image_item (filter truthy xs)"
proof -
  have keep: "filter_images ys = Inr zs \<Longrightarrow> zs = filter image_item ys" for ys zs
  proof (induction ys arbitrary: zs)
    case Nil
    then show ?case by simp
  next
    case (Cons y ys)
    then show ?case
      by (auto simp: image_mimeType_def image_item_def Let_def
               split: sum.splits if_splits jsval.splits)
  qed
  from assms have "truthy r"
    by (cases r) (simp_all add: readable_def)
  with assms keep[of "filter truthy xs"] show ?thesis
    by (auto simp: readable_def page_items_def search_items_def split: sum.splits)
qed

lemma requests_Cons:
  "requests p (r # rs) = p # requests (AList.update ''pageToken'' (page_token r) p) rs"
  by (simp add: requests_def)

lemma requests_last:
  "last (requests p rs) = (if rs = [] then p else AList.update ''pageToken'' (page_token (last rs)) p)"
  by (simp add: requests_def last_map)

text \<open>
  As long as every page leaves fewer photos than \<^verbatim>\<open>config.photosToLoad\<close> and carries a
  token, the loop goes through the pages, whatever follows them, and the request after
  each page carries its token.
\<close>

lemma search_loop_run:
  assumes "\<forall>r\<in>set rs. readable r"
    and "\<forall>k<length rs. int (length (acc @ collected (take (Suc k) rs))) < photosToLoad cfg
                         \<and> \<not> nullish (page_token (rs ! k))"
  shows "search_loop cfg (map Resolves rs @ rest) acc ps sent =
           search_loop cfg rest (acc @ collected rs) (last (requests ps rs))
             (sent @ butlast (requests ps rs))"
  using assms
proof (induction rs arbitrary: acc ps sent)
  case Nil
  then show ?case by (simp add: collected_def requests_def)
next
  case (Cons r rs)
  let ?ps = "AList.update ''pageToken'' (page_token r) ps"
  have r: "readable r" using Cons.prems(1) by simp
  have first: "int (length (acc @ page_items r)) < photosToLoad cfg \<and> \<not> nullish (page_token r)"
    using Cons.prems(2)[rule_format, of 0] by (simp add: collected_def)
  have tail: "\<forall>k<length rs. int (length ((acc @ page_items r) @ collected (take (Suc k) rs))) < photosToLoad cfg
                         \<and> \<not> nullish (page_token (rs ! k))"
  proof (intro allI impI)
    fix k assume "k < length rs"
    then have "Suc k < length (r # rs)" by simp
    from Cons.prems(2)[rule_format, OF this]
    show "int (length ((acc @ page_items r) @ collected (take (Suc k) rs))) < photosToLoad cfg
                         \<and> \<not> nullish (page_token (rs ! k))"
      by (simp add: collected_def)
  qed
  have ne: "requests ?ps rs \<noteq> []" by (simp add: requests_def)
  have "search_loop cfg (map Resolves (r # rs) @ rest) acc ps sent =
        search_loop cfg (map Resolves rs @ rest) (acc @ page_items r) ?ps (sent @ [ps])"
    using search_loop_page[OF r, of cfg "map Resolves rs @ rest" acc ps sent] first by simp
  also have "\<dots> = search_loop cfg rest ((acc @ page_items r) @ collected rs)
             (last (requests ?ps rs)) ((sent @ [ps]) @ butlast (requests ?ps rs))"
    using Cons.IH[OF _ tail] Cons.prems(1) by simp
  finally show ?case using ne by (simp add: collected_def requests_Cons)
qed

text \<open>
  The claim C1 read on two replies to the first call. A response with status 200 and no
  body resolves with \<^verbatim>\<open>undefined\<close>: it carries no token, and the read of
  \<^verbatim>\<open>result.nextPageToken\<close> throws; the \<^verbatim>\<open>catch\<close> block throws in turn, on
  \<^verbatim>\<open>err.error.error\<close>. A page whose \<^verbatim>\<open>mediaItems\<close> is not an array has no \<^verbatim>\<open>filter\<close>,
  with the same end. In both runs the search does not return.
\<close>

theorem pagination_counterexample:
  "libraryApiSearch \<lparr>photosToLoad = 50, searchPageSize = 100, albumPageSize = 50, level_text = ''error''\<rparr>
     [Resolves Undefined] [(''albumId'', JStr ''abc'')] = Some (Inl TypeError)
   \<and> libraryApiSearch \<lparr>photosToLoad = 50, searchPageSize = 100, albumPageSize = 50, level_text = ''error''\<rparr>
       [Resolves (JObj [(''mediaItems'', JStr ''none'')])] [(''albumId'', JStr ''abc'')] =
     Some (Inl TypeError)"
  by (simp add: libraryApiSearch_def search_items_def js_get_def catch_error_def)

text \<open>
  C1, amended. Let the remote side resolve the pages \<open>rs\<close> and then \<open>r\<close>, each read
  without a throw, where after every page of \<open>rs\<close> the photos collected so far are fewer
  than \<^verbatim>\<open>config.photosToLoad\<close> and the page carries a token. If \<open>r\<close> brings the count to
  \<^verbatim>\<open>config.photosToLoad\<close> or carries no token, the search returns after the call that
  \<open>r\<close> answers, whatever the remote side would reply next: its photos are the
  normalized items of all these pages in order, \<^verbatim>\<open>parameters.pageToken\<close> is the token of
  \<open>r\<close>, the error is \<^verbatim>\<open>null\<close>, and the requests posted are one per page, the first with
  the caller's parameters and the page size, each later one with the token of the page
  before it as \<^verbatim>\<open>pageToken\<close>. Otherwise the search has not returned at the end of these
  pages. A page without a token ends the loop whatever the minimum is.
\<close>

theorem libraryApiSearch_pagination:
  assumes read: "\<forall>x\<in>set (rs @ [r]). readable x"
    and go: "\<forall>k<length rs. int (length (collected (take (Suc k) rs))) < photosToLoad cfg
                         \<and> \<not> nullish (page_token (rs ! k))"
  shows "if photosToLoad cfg \<le> int (length (collected (rs @ [r]))) \<or> nullish (page_token r)
         then libraryApiSearch cfg (map Resolves (rs @ [r]) @ rest) p =
                Some (Inr \<lparr>photos = collected (rs @ [r]),
                           parameters = AList.update ''pageToken'' (page_token r)
                                          (AList.update ''pageSize'' (JNum (searchPageSize cfg)) p),
                           error = Null\<rparr>)
              \<and> search_posted cfg (map Resolves (rs @ [r]) @ rest) p =
                  Some (requests (AList.update ''pageSize'' (JNum (searchPageSize cfg)) p) rs)
         else libraryApiSearch cfg (map Resolves (rs @ [r])) p = None"
proof -
  let ?p0 = "AList.update ''pageSize'' (JNum (searchPageSize cfg)) p"
  let ?p1 = "last (requests ?p0 rs)"
  have rs: "\<forall>x\<in>set rs. readable x" and r: "readable r" using read by simp_all
  have go': "\<forall>k<length rs. int (length ([] @ collected (take (Suc k) rs))) < photosToLoad cfg
                         \<and> \<not> nullish (page_token (rs ! k))"
    using go by simp
  have run: "search_loop cfg (map Resolves rs @ Resolves r # tl) [] ?p0 [] =
             search_loop cfg (Resolves r # tl) (collected rs) ?p1 (butlast (requests ?p0 rs))" for tl
    using search_loop_run[OF rs go', of "Resolves r # tl" ?p0 "[]"] by (simp del: search_loop.simps)
  have upd: "AList.update ''pageToken'' (page_token r) ?p1 = AList.update ''pageToken'' (page_token r) ?p0"
    by (simp add: requests_last)
  have col: "collected rs @ page_items r = collected (rs @ [r])"
    by (simp add: collected_def)
  have all: "butlast (requests ?p0 rs) @ [?p1] = requests ?p0 rs"
    by (simp add: requests_def)
  show ?thesis
  proof (cases "photosToLoad cfg \<le> int (length (collected (rs @ [r]))) \<or> nullish (page_token r)")
    case True
    then have "search_loop cfg (Resolves r # rest) (collected rs) ?p1 (butlast (requests ?p0 rs)) =
               Some (collected (rs @ [r]), AList.update ''pageToken'' (page_token r) ?p0, Completed,
                     requests ?p0 rs)"
      unfolding search_loop_page[OF r] upd col all by auto
    with True show ?thesis
      by (simp add: libraryApiSearch_def search_posted_def run del: search_loop.simps)
  next
    case False
    then have "search_loop cfg (Resolves r # []) (collected rs) ?p1 (butlast (requests ?p0 rs)) = None"
      unfolding search_loop_page[OF r] upd col by auto
    with False show ?thesis using run[of "[]"] by (simp add: libraryApiSearch_def del: search_loop.simps)
  qed
qed

theorem libraryApiSearch_pagination_witness:
  "readable (JObj [(''mediaItems'', JArr [JObj [(''mimeType'', JStr ''image/png'')], Null,
                                             JObj [(''mimeType'', JStr ''video/mp4'')]]),
                        (''nextPageToken'', JStr ''t1'')])
   \<and> readable (JObj [(''mediaItems'', JArr [JObj [(''mimeType'', JStr ''image/jpeg'')]])])
   \<and> \<not> nullish (page_token (JObj [(''mediaItems'', JArr [JObj [(''mimeType'', JStr ''image/png'')], Null,
                                             JObj [(''mimeType'', JStr ''video/mp4'')]]),
                        (''nextPageToken'', JStr ''t1'')]))
   \<and> nullish (page_token (JObj [(''mediaItems'', JArr [JObj [(''mimeType'', JStr ''image/jpeg'')]])]))
   \<and> libraryApiSearch \<lparr>photosToLoad = 50, searchPageSize = 100, albumPageSize = 50, level_text = ''error''\<rparr>
       [Resolves (JObj [(''mediaItems'', JArr [JObj [(''mimeType'', JStr ''image/png'')], Null,
                                             JObj [(''mimeType'', JStr ''video/mp4'')]]),
                        (''nextPageToken'', JStr ''t1'')]),
        Resolves (JObj [(''mediaItems'', JArr [JObj [(''mimeType'', JStr ''image/jpeg'')]])]),
        Rejects Null]
       [(''albumId'', JStr ''abc'')] =
     Some (Inr \<lparr>photos = [JObj [(''mimeType'', JStr ''image/png'')], JObj [(''mimeType'', JStr ''image/jpeg'')]],
                parameters = [(''albumId'', JStr ''abc''), (''pageSize'', JNum 100), (''pageToken'', Undefined)],
                error = Null\<rparr>)
   \<and> search_posted \<lparr>photosToLoad = 50, searchPageSize = 100, albumPageSize = 50, level_text = ''error''\<rparr>
       [Resolves (JObj [(''mediaItems'', JArr [JObj [(''mimeType'', JStr ''image/png'')], Null,
                                             JObj [(''mimeType'', JStr ''video/mp4'')]]),
                        (''nextPageToken'', JStr ''t1'')]),
        Resolves (JObj [(''mediaItems'', JArr [JObj [(''mimeType'', JStr ''image/jpeg'')]])]),
        Rejects Null]
       [(''albumId'', JStr ''abc'')] =
     Some [[(''albumId'', JStr ''abc''), (''pageSize'', JNum 100)],
           [(''albumId'', JStr ''abc''), (''pageSize'', JNum 100), (''pageToken'', JStr ''t1'')]]"
  using libraryApiSearch_pagination
    [of "[JObj [(''mediaItems'', JArr [JObj [(''mimeType'', JStr ''image/png'')], Null,
                                             JObj [(''mimeType'', JStr ''video/mp4'')]]),
                        (''nextPageToken'', JStr ''t1'')]]"
        "JObj [(''mediaItems'', JArr [JObj [(''mimeType'', JStr ''image/jpeg'')]])]"
        "\<lparr>photosToLoad = 50, searchPageSize = 100, albumPageSize = 50, level_text = ''error''\<rparr>"
        "[Rejects Null]" "[(''albumId'', JStr ''abc'')]"]
  by (simp add: readable_def page_items_def page_token_def collected_def search_items_def
        image_mimeType_def requests_def)

section \<open>What a search keeps\<close>

lemma image_mimeType_keeps: "image_mimeType x = Inr True \<Longrightarrow> image_item x"
  by (auto simp: image_mimeType_def image_item_def Let_def split: if_splits jsval.splits)

lemma filter_images_sound: "filter_images xs = Inr ys \<Longrightarrow> \<forall>y\<in>set ys. image_item y"
proof (induction xs arbitrary: ys)
  case Nil
  then show ?case by simp
next
  case (Cons x xs)
  then show ?case
    by (auto split: sum.splits if_splits dest: image_mimeType_keeps)
qed

lemma search_items_images: "search_items r = Inr xs \<Longrightarrow> \<forall>x\<in>set xs. image_item x"
  by (auto simp: search_items_def split: if_splits jsval.splits dest: filter_images_sound)

lemma search_loop_images:
  "search_loop cfg replies acc ps sent = Some (found, ps', e, sent') \<Longrightarrow> \<forall>x\<in>set acc. image_item x
   \<Longrightarrow> \<forall>x\<in>set found. image_item x"
proof (induction cfg replies acc ps sent rule: search_loop.induct)
  case (1 cfg photos parameters posted)
  then show ?case by simp
next
  case (2 cfg err rest photos parameters posted)
  then show ?case by simp
next
  case (3 cfg result rest photos parameters posted)
  show ?case
  proof (cases "to_string_throws result")
    case True
    with 3 show ?thesis by simp
  next
    case ok: False
    show ?thesis
  proof (cases "search_items result")
    case (Inl t)
    with 3 ok show ?thesis by simp
  next
    case (Inr its)
    note its = search_items_images[OF Inr]
    show ?thesis
    proof (cases "js_get result ''nextPageToken''")
      case (Inl t)
      with 3 ok Inr its show ?thesis by auto
    next
      case tok: (Inr token)
      show ?thesis
      proof (cases "int (length (photos @ its)) < photosToLoad cfg \<and> \<not> nullish token")
        case True
        have "\<forall>x\<in>set (photos @ its). image_item x" using its "3.prems"(2) by auto
        moreover have "search_loop cfg rest (photos @ its) (AList.update ''pageToken'' token parameters) (posted @ [parameters]) = Some (found, ps', e, sent')"
          using "3.prems"(1) ok Inr tok True by simp
        ultimately show ?thesis
          using "3.IH"[OF ok Inr refl tok refl True] by blast
      next
        case False
        with 3 ok Inr tok its show ?thesis by auto
      qed
    qed
  qed
  qed
qed

lemma libraryApiSearch_images:
  "libraryApiSearch cfg replies p = Some (Inr data) \<Longrightarrow> \<forall>x\<in>set (photos data). image_item x"
  by (auto simp: libraryApiSearch_def split: option.splits prod.splits loop_end.splits sum.splits
           dest!: search_loop_images)

lemma search_loop_parameters:
  "search_loop cfg replies acc ps sent = Some (found, ps', e, sent') \<Longrightarrow>
   ps' = ps \<or> (\<exists>token. ps' = AList.update ''pageToken'' token ps)"
proof (induction cfg replies acc ps sent rule: search_loop.induct)
  case (1 cfg photos parameters posted)
  then show ?case by simp
next
  case (2 cfg err rest photos parameters posted)
  then show ?case by simp
next
  case (3 cfg result rest photos parameters posted)
  show ?case
  proof (cases "to_string_throws result")
    case True
    with 3 show ?thesis by simp
  next
    case ok: False
    show ?thesis
  proof (cases "search_items result")
    case (Inl t)
    with 3 ok show ?thesis by simp
  next
    case (Inr its)
    show ?thesis
    proof (cases "js_get result ''nextPageToken''")
      case (Inl t)
      with 3 ok Inr show ?thesis by auto
    next
      case tok: (Inr token)
      show ?thesis
      proof (cases "int (length (photos @ its)) < photosToLoad cfg \<and> \<not> nullish token")
        case True
        have "search_loop cfg rest (photos @ its) (AList.update ''pageToken'' token parameters) (posted @ [parameters]) = Some (found, ps', e, sent')"
          using "3.prems"(1) ok Inr tok True by simp
        from "3.IH"[OF ok Inr refl tok refl True this] show ?thesis by auto
      next
        case False
        with 3 ok Inr tok show ?thesis by auto
      qed
    qed
  qed
  qed
qed

lemma stripped_parameters:
  assumes "libraryApiSearch cfg replies p = Some (Inr data)"
  shows "AList.delete ''pageSize'' (AList.delete ''pageToken'' (parameters data)) =
         AList.delete ''pageSize'' (AList.delete ''pageToken'' p)"
proof -
  let ?p0 = "AList.update ''pageSize'' (JNum (searchPageSize cfg)) p"
  have strip: "AList.delete ''pageSize'' (AList.delete ''pageToken'' ?p0) =
        AList.delete ''pageSize'' (AList.delete ''pageToken'' p)"
    by (simp add: delete_twist[of "''pageSize''"] delete_update_same)
  obtain found e sent where "search_loop cfg replies [] ?p0 [] = Some (found, parameters data, e, sent)"
    using assms
    by (auto simp: libraryApiSearch_def split: option.splits prod.splits loop_end.splits sum.splits)
  from search_loop_parameters[OF this]
  show ?thesis using strip by (auto simp: delete_update_same)
qed

section \<open>Errors as data\<close>

lemma logged_truthy: "truthy (logged cfg v) = truthy v"
  by (cases v) (simp_all add: logged_def)

lemma logged_prop: "k \<noteq> ''level'' \<Longrightarrow> js_prop (logged cfg v) k = js_prop v k"
  by (cases v) (simp_all add: logged_def update_conv')

lemma caught_truthy: "truthy (caught e)"
  by (simp add: caught_def js_or_def)

lemma structured_truthy: "truthy (structured cfg e)"
  by (simp add: structured_def logged_truthy caught_truthy)

lemma catch_error_truthy: "catch_error cfg err = Inr e \<Longrightarrow> truthy e"
  by (auto simp: catch_error_def logger_error_def js_or_def logged_truthy
           split: thrown.splits sum.splits if_splits)

lemma catch_error_structured:
  "\<not> nullish e \<Longrightarrow> \<not> nullish (js_prop e ''error'') \<Longrightarrow> \<not> logger_throws cfg (caught e) \<Longrightarrow>
   catch_error cfg (Rejected e) = Inr (structured cfg e)"
  by (simp add: catch_error_def js_get_def structured_def caught_def logger_error_def)

lemma libraryApiSearch_error:
  "libraryApiSearch cfg replies p = Some (Inr data) \<Longrightarrow> error data = Null \<or> truthy (error data)"
  by (auto simp: libraryApiSearch_def split: option.splits prod.splits loop_end.splits sum.splits
           dest: catch_error_truthy)

lemma returnError_truthy:
  "truthy e \<Longrightarrow> returnError e = Inr \<lparr>status = js_or (js_prop e ''code'') (JNum 500), body = e\<rparr>"
  by (cases e) (simp_all add: returnError_def js_get_def)

lemma returnPhotos_error:
  "truthy (error data) \<Longrightarrow>
   returnPhotos st userId data sp =
     Inr (st, \<lparr>status = js_or (js_prop (error data) ''code'') (JNum 500), body = error data\<rparr>)"
  by (simp add: returnPhotos_def returnError_truthy)

text \<open>A rejected call after pages that keep the loop going.\<close>

lemma libraryApiSearch_rejected:
  assumes read: "\<forall>x\<in>set rs. readable x"
    and go: "\<forall>k<length rs. int (length (collected (take (Suc k) rs))) < photosToLoad cfg
                         \<and> \<not> nullish (page_token (rs ! k))"
  shows "libraryApiSearch cfg (map Resolves rs @ Rejects e # rest) p =
           (case catch_error cfg (Rejected e) of
              Inl t \<Rightarrow> Some (Inl t)
            | Inr err \<Rightarrow>
                Some (Inr \<lparr>photos = collected rs,
                           parameters =
                             last (requests (AList.update ''pageSize'' (JNum (searchPageSize cfg)) p) rs),
                           error = err\<rparr>))"
proof -
  have go': "\<forall>k<length rs. int (length ([] @ collected (take (Suc k) rs))) < photosToLoad cfg
                         \<and> \<not> nullish (page_token (rs ! k))"
    using go by simp
  show ?thesis
    unfolding libraryApiSearch_def search_loop_run[OF read go']
    by (simp split: sum.splits)
qed

text \<open>
  The claim C2 read on two failures of the call for the second page, both with status
  401. When the body of the response is \<^verbatim>\<open>{error: 'unauthorized'}\<close>, the error returned
  is that string, which carries no code, and the response has status 500. When the
  response has no body, the rejection has no \<^verbatim>\<open>error\<close> property, the \<^verbatim>\<open>catch\<close> block
  throws, and the handler sends no response.
\<close>

theorem failure_partway_counterexample:
  "search_and_return \<lparr>photosToLoad = 50, searchPageSize = 100, albumPageSize = 50, level_text = ''error''\<rparr>
     (start 0)
     [Resolves (JObj [(''mediaItems'', JArr [JObj [(''mimeType'', JStr ''image/png'')]]),
                      (''nextPageToken'', JStr ''t1'')]),
      Rejects (JObj [(''name'', JStr ''StatusCodeError''), (''statusCode'', JNum 401),
                     (''message'', JStr ''401''),
                     (''error'', JObj [(''error'', JStr ''unauthorized'')])])]
     ''user'' [(''albumId'', JStr ''abc'')] =
   Some (Inr (start 0, \<lparr>status = JNum 500, body = JStr ''unauthorized''\<rparr>))
   \<and> search_and_return \<lparr>photosToLoad = 50, searchPageSize = 100, albumPageSize = 50, level_text = ''error''\<rparr>
       (start 0)
       [Resolves (JObj [(''mediaItems'', JArr [JObj [(''mimeType'', JStr ''image/png'')]]),
                        (''nextPageToken'', JStr ''t1'')]),
        Rejects (JObj [(''name'', JStr ''StatusCodeError''), (''statusCode'', JNum 401),
                       (''message'', JStr ''401 - undefined'')])]
       ''user'' [(''albumId'', JStr ''abc'')] =
     Some (Inl TypeError)"
  by (simp add: search_and_return_def libraryApiSearch_def search_items_def image_mimeType_def
        js_get_def js_or_def catch_error_def logger_error_def logger_throws_def logged_def
        returnPhotos_def returnError_def Let_def)

text \<open>
  C2, amended. Let the pages \<open>rs\<close> keep the loop going and let the next call be rejected
  with \<open>e\<close>. If \<open>e\<close> has status code \<open>c\<close> and a body, the error of the body, if it has
  one, carrying \<open>c\<close> as its code, and the logger prints the error, then the search returns
  the items of \<open>rs\<close> with the error \<open>structured cfg e\<close>, whose code is \<open>c\<close>, and the
  handler answers with status \<open>c\<close> and that error. Whatever \<open>e\<close> is, a handler that
  answers leaves the media-item cache and the store of parameters, and the rest of the
  state, as they were.
\<close>

theorem search_failure_partway:
  assumes read: "\<forall>x\<in>set rs. readable x"
    and go: "\<forall>k<length rs. int (length (collected (take (Suc k) rs))) < photosToLoad cfg
                         \<and> \<not> nullish (page_token (rs ! k))"
  shows "(\<not> nullish e \<and> \<not> nullish (js_prop e ''error'') \<and> \<not> logger_throws cfg (caught e)
            \<and> js_prop e ''statusCode'' = JNum c \<and> c \<noteq> 0
            \<and> (truthy (js_prop (js_prop e ''error'') ''error'') \<longrightarrow>
                  js_prop (js_prop (js_prop e ''error'') ''error'') ''code'' = JNum c)
          \<longrightarrow> (\<exists>data. libraryApiSearch cfg (map Resolves rs @ Rejects e # rest) p = Some (Inr data)
                 \<and> photos data = collected rs
                 \<and> error data = structured cfg e
                 \<and> js_prop (error data) ''code'' = JNum c
                 \<and> search_and_return cfg st (map Resolves rs @ Rejects e # rest) userId p =
                     Some (Inr (st, \<lparr>status = JNum c, body = error data\<rparr>))))
         \<and> (\<forall>st' res. search_and_return cfg st (map Resolves rs @ Rejects e # rest) userId p =
                         Some (Inr (st', res)) \<longrightarrow> st' = st)"
proof (intro conjI impI allI)
  assume h: "\<not> nullish e \<and> \<not> nullish (js_prop e ''error'') \<and> \<not> logger_throws cfg (caught e)
            \<and> js_prop e ''statusCode'' = JNum c \<and> c \<noteq> 0
            \<and> (truthy (js_prop (js_prop e ''error'') ''error'') \<longrightarrow>
                  js_prop (js_prop (js_prop e ''error'') ''error'') ''code'' = JNum c)"
  then have "js_prop (caught e) ''code'' = JNum c"
    by (simp add: caught_def js_or_def)
  then have c: "js_prop (structured cfg e) ''code'' = JNum c"
    by (simp add: structured_def logged_prop)
  from h have e: "\<not> nullish e" "\<not> nullish (js_prop e ''error'')" "\<not> logger_throws cfg (caught e)"
    by simp_all
  show "\<exists>data. libraryApiSearch cfg (map Resolves rs @ Rejects e # rest) p = Some (Inr data)
                 \<and> photos data = collected rs
                 \<and> error data = structured cfg e
                 \<and> js_prop (error data) ''code'' = JNum c
                 \<and> search_and_return cfg st (map Resolves rs @ Rejects e # rest) userId p =
                     Some (Inr (st, \<lparr>status = JNum c, body = error data\<rparr>))"
    using c h
    by (simp add: libraryApiSearch_rejected[OF read go] catch_error_structured[OF e]
          search_and_return_def returnPhotos_error structured_truthy js_or_def)
next
  fix st' res
  assume "search_and_return cfg st (map Resolves rs @ Rejects e # rest) userId p =
            Some (Inr (st', res))"
  then show "st' = st"
    by (auto simp: search_and_return_def libraryApiSearch_rejected[OF read go] returnPhotos_error
             split: sum.splits dest: catch_error_truthy)
qed

theorem search_failure_partway_witness:
  "readable (JObj [(''mediaItems'', JArr [JObj [(''mimeType'', JStr ''image/png'')]]),
                   (''nextPageToken'', JStr ''t1'')])
   \<and> \<not> logger_throws \<lparr>photosToLoad = 50, searchPageSize = 100, albumPageSize = 50, level_text = ''error''\<rparr>
         (caught (JObj [(''name'', JStr ''StatusCodeError''), (''statusCode'', JNum 401),
                        (''message'', JStr ''401''),
                        (''error'', JObj [(''error'', JObj [(''code'', JNum 401),
                                                            (''message'', JStr ''Invalid Credentials''),
                                                            (''status'', JStr ''UNAUTHENTICATED'')])])]))
   \<and> search_and_return \<lparr>photosToLoad = 50, searchPageSize = 100, albumPageSize = 50, level_text = ''error''\<rparr>
        (start 0)
        [Resolves (JObj [(''mediaItems'', JArr [JObj [(''mimeType'', JStr ''image/png'')]]),
                         (''nextPageToken'', JStr ''t1'')]),
         Rejects (JObj [(''name'', JStr ''StatusCodeError''), (''statusCode'', JNum 401),
                        (''message'', JStr ''401''),
                        (''error'', JObj [(''error'', JObj [(''code'', JNum 401),
                                                            (''message'', JStr ''Invalid Credentials''),
                                                            (''status'', JStr ''UNAUTHENTICATED'')])])])]
        ''user'' [(''albumId'', JStr ''abc'')] =
      Some (Inr (start 0,
                 \<lparr>status = JNum 401,
                  body = JObj [(''code'', JNum 401), (''message'', JStr ''Invalid Credentials''),
                               (''status'', JStr ''UNAUTHENTICATED''), (''level'', JStr ''error'')]\<rparr>))
   \<and> map_option (map_sum id photos)
        (libraryApiSearch \<lparr>photosToLoad = 50, searchPageSize = 100, albumPageSize = 50, level_text = ''error''\<rparr>
        [Resolves (JObj [(''mediaItems'', JArr [JObj [(''mimeType'', JStr ''image/png'')]]),
                         (''nextPageToken'', JStr ''t1'')]),
         Rejects (JObj [(''name'', JStr ''StatusCodeError''), (''statusCode'', JNum 401),
                        (''message'', JStr ''401''),
                        (''error'', JObj [(''error'', JObj [(''code'', JNum 401),
                                                            (''message'', JStr ''Invalid Credentials''),
                                                            (''status'', JStr ''UNAUTHENTICATED'')])])])]
        [(''albumId'', JStr ''abc'')]) =
      Some (Inr [JObj [(''mimeType'', JStr ''image/png'')]])"
  using search_failure_partway
    [where rs = "[JObj [(''mediaItems'', JArr [JObj [(''mimeType'', JStr ''image/png'')]]),
                        (''nextPageToken'', JStr ''t1'')]]"
       and cfg = "\<lparr>photosToLoad = 50, searchPageSize = 100, albumPageSize = 50, level_text = ''error''\<rparr>"
       and e = "JObj [(''name'', JStr ''StatusCodeError''), (''statusCode'', JNum 401),
                      (''message'', JStr ''401''),
                      (''error'', JObj [(''error'', JObj [(''code'', JNum 401),
                                                          (''message'', JStr ''Invalid Credentials''),
                                                          (''status'', JStr ''UNAUTHENTICATED'')])])]"
       and c = 401 and rest = "[]" and p = "[(''albumId'', JStr ''abc'')]"
       and st = "start 0" and userId = "''user''"]
  by (auto simp: readable_def page_items_def page_token_def collected_def search_items_def
        image_mimeType_def caught_def structured_def logged_def logger_throws_def js_or_def)

section \<open>Album selections are filtered too\<close>

text \<open>
  The claim C3 read on a run: the remote side returns a video and an image for the
  album, and the answer of \<^verbatim>\<open>/loadFromAlbum\<close> holds the image only.
\<close>

theorem loadFromAlbum_drops_video:
  "map_option (map_sum id snd)
     (loadFromAlbum \<lparr>photosToLoad = 50, searchPageSize = 100, albumPageSize = 50, level_text = ''error''\<rparr> (start 0)
        [Resolves (JObj [(''mediaItems'', JArr [JObj [(''id'', JStr ''v''), (''mimeType'', JStr ''video/mp4'')],
                                                JObj [(''id'', JStr ''i''), (''mimeType'', JStr ''image/jpeg'')]])])]
        ''user'' (JStr ''abc'')) =
   Some (Inr \<lparr>status = JNum 200,
              body = JObj [(''photos'', JArr [JObj [(''id'', JStr ''i''), (''mimeType'', JStr ''image/jpeg'')]]),
                           (''parameters'', JObj [(''albumId'', JStr ''abc'')])]\<rparr>)"
  by (simp add: loadFromAlbum_def search_and_return_def libraryApiSearch_def search_items_def
        image_mimeType_def js_get_def returnPhotos_def Let_def)

text \<open>
  C3, amended. Whatever the remote side returns for an album, every item of the list that
  the search returns has a string \<^verbatim>\<open>mimeType\<close> that starts with \<^verbatim>\<open>image/\<close>, and when
  the search ends without an error that list is what \<^verbatim>\<open>/loadFromAlbum\<close> sends, with
  the album identifier as the only parameter (unless the identifier is one that the
  handler cannot log, when it throws before it searches).
\<close>

theorem loadFromAlbum_only_images:
  assumes "libraryApiSearch cfg replies [(''albumId'', albumId)] = Some (Inr data)"
  shows "(\<forall>x\<in>set (photos data). image_item x)
         \<and> (\<not> truthy (error data) \<longrightarrow>
              map_option (map_sum id snd) (loadFromAlbum cfg st replies userId albumId) =
                (if to_string_throws albumId then Some (Inl TypeError)
                 else Some (Inr \<lparr>status = JNum 200,
                                body = JObj [(''photos'', JArr (photos data)),
                                             (''parameters'', JObj [(''albumId'', albumId)])]\<rparr>)))"
proof -
  have "AList.delete ''pageSize'' (AList.delete ''pageToken'' (parameters data)) = [(''albumId'', albumId)]"
    using stripped_parameters[OF assms] by simp
  then show ?thesis
    using libraryApiSearch_images[OF assms] assms
    by (simp add: loadFromAlbum_def search_and_return_def returnPhotos_def Let_def)
qed

theorem loadFromAlbum_only_images_witness:
  "libraryApiSearch \<lparr>photosToLoad = 50, searchPageSize = 100, albumPageSize = 50, level_text = ''error''\<rparr>
     [Resolves (JObj [(''mediaItems'', JArr [JObj [(''mimeType'', JStr ''video/mp4'')],
                                             JObj [(''mimeType'', JStr ''image/jpeg'')]])])]
     [(''albumId'', JStr ''abc'')] =
   Some (Inr \<lparr>photos = [JObj [(''mimeType'', JStr ''image/jpeg'')]],
              parameters = [(''albumId'', JStr ''abc''), (''pageSize'', JNum 100), (''pageToken'', Undefined)],
              error = Null\<rparr>)
   \<and> image_item (JObj [(''mimeType'', JStr ''image/jpeg'')])
   \<and> \<not> image_item (JObj [(''mimeType'', JStr ''video/mp4'')])
   \<and> map_option (map_sum id snd)
        (loadFromAlbum \<lparr>photosToLoad = 50, searchPageSize = 100, albumPageSize = 50, level_text = ''error''\<rparr> (start 0)
           [Resolves (JObj [(''mediaItems'', JArr [JObj [(''mimeType'', JStr ''video/mp4'')],
                                                   JObj [(''mimeType'', JStr ''image/jpeg'')]])])]
           ''user'' (JStr ''abc'')) =
      Some (Inr \<lparr>status = JNum 200,
                 body = JObj [(''photos'', JArr [JObj [(''mimeType'', JStr ''image/jpeg'')]]),
                              (''parameters'', JObj [(''albumId'', JStr ''abc'')])]\<rparr>)"
proof -
  have run: "libraryApiSearch \<lparr>photosToLoad = 50, searchPageSize = 100, albumPageSize = 50, level_text = ''error''\<rparr>
     [Resolves (JObj [(''mediaItems'', JArr [JObj [(''mimeType'', JStr ''video/mp4'')],
                                             JObj [(''mimeType'', JStr ''image/jpeg'')]])])]
     [(''albumId'', JStr ''abc'')] =
   Some (Inr \<lparr>photos = [JObj [(''mimeType'', JStr ''image/jpeg'')]],
              parameters = [(''albumId'', JStr ''abc''), (''pageSize'', JNum 100), (''pageToken'', Undefined)],
              error = Null\<rparr>)"
    by (simp add: libraryApiSearch_def search_items_def image_mimeType_def js_get_def)
  show ?thesis
    using run loadFromAlbum_only_images[OF run, of "start 0" "''user''"]
    by (simp add: image_item_def)
qed

section \<open>The loop of libraryApiGetAlbums\<close>

text \<open>What a page contributes: the truthy entries of its \<^verbatim>\<open>albums\<close> array.\<close>

lemma album_page_items_array:
  "truthy r \<Longrightarrow> js_prop r ''albums'' = JArr xs \<Longrightarrow> album_page_items r = filter truthy xs"
  by (simp add: album_page_items_def album_items_def)

text \<open>
  Which pages are listed without a throw: values other than \<^verbatim>\<open>null\<close> and \<^verbatim>\<open>undefined\<close>
  that convert to a string and whose \<^verbatim>\<open>albums\<close>, when truthy, is an array.
\<close>

lemma listable_iff:
  "listable r \<longleftrightarrow>
     \<not> nullish r \<and> \<not> to_string_throws r
     \<and> (truthy r \<and> truthy (js_prop r ''albums'') \<longrightarrow> (\<exists>xs. js_prop r ''albums'' = JArr xs))"
  by (cases "js_prop r ''albums''") (auto simp: listable_def album_items_def)

lemma albums_loop_page:
  assumes "listable r"
  shows "albums_loop (Resolves r # rest) acc ps sent =
           (if \<not> nullish (page_token r)
            then albums_loop rest (acc @ album_page_items r)
                   (AList.update ''pageToken'' (page_token r) ps) (sent @ [ps])
            else Some (acc @ album_page_items r, AList.update ''pageToken'' (page_token r) ps,
                       Completed, sent @ [ps]))"
  using assms
  by (auto simp: listable_def album_page_items_def page_token_def js_get_def Let_def split: sum.splits)

lemma albums_loop_run:
  assumes "\<forall>r\<in>set rs. listable r \<and> \<not> nullish (page_token r)"
  shows "albums_loop (map Resolves rs @ rest) acc ps sent =
           albums_loop rest (acc @ listed rs) (last (requests ps rs))
             (sent @ butlast (requests ps rs))"
  using assms
proof (induction rs arbitrary: acc ps sent)
  case Nil
  then show ?case by (simp add: listed_def requests_def)
next
  case (Cons r rs)
  let ?ps = "AList.update ''pageToken'' (page_token r) ps"
  have ne: "requests ?ps rs \<noteq> []" by (simp add: requests_def)
  have "albums_loop (map Resolves (r # rs) @ rest) acc ps sent =
        albums_loop (map Resolves rs @ rest) (acc @ album_page_items r) ?ps (sent @ [ps])"
    using Cons.prems albums_loop_page[of r "map Resolves rs @ rest" acc ps sent] by simp
  also have "\<dots> = albums_loop rest ((acc @ album_page_items r) @ listed rs)
             (last (requests ?ps rs)) ((sent @ [ps]) @ butlast (requests ?ps rs))"
    using Cons.IH[of "acc @ album_page_items r" ?ps "sent @ [ps]"] Cons.prems
    by simp
  finally show ?case using ne by (simp add: listed_def requests_Cons)
qed

lemma libraryApiGetAlbums_rejected:
  assumes "\<forall>r\<in>set rs. listable r \<and> \<not> nullish (page_token r)"
  shows "libraryApiGetAlbums cfg (map Resolves rs @ Rejects e # rest) =
           (case catch_error cfg (Rejected e) of
              Inl t \<Rightarrow> Some (Inl t)
            | Inr err \<Rightarrow> Some (Inr \<lparr>albums = listed rs, albums_error = err\<rparr>))"
  unfolding libraryApiGetAlbums_def albums_loop_run[OF assms]
  by (simp split: sum.splits)

lemma libraryApiGetAlbums_last:
  assumes "\<forall>r\<in>set rs. listable r \<and> \<not> nullish (page_token r)"
    and "listable r" and "nullish (page_token r)"
  shows "libraryApiGetAlbums cfg (map Resolves rs @ Resolves r # rest) =
           Some (Inr \<lparr>albums = listed (rs @ [r]), albums_error = Null\<rparr>)"
    and "albums_queried cfg (map Resolves rs @ Resolves r # rest) =
           Some (requests [(''pageSize'', JNum (albumPageSize cfg))] rs)"
  unfolding libraryApiGetAlbums_def albums_queried_def albums_loop_run[OF assms(1)]
    albums_loop_page[OF assms(2)]
  using assms(3) by (simp_all add: listed_def requests_def)

lemma libraryApiGetAlbums_error:
  "libraryApiGetAlbums cfg replies = Some (Inr data) \<Longrightarrow>
   albums_error data = Null \<or> truthy (albums_error data)"
  by (auto simp: libraryApiGetAlbums_def split: option.splits prod.splits loop_end.splits sum.splits
           dest: catch_error_truthy)

section \<open>What the catch block returns\<close>

text \<open>
  The claim C6 read on two failures of the first call. A refused connection rejects with
  a \<^verbatim>\<open>RequestError\<close>, which has no status code: the error returned has \<^verbatim>\<open>undefined\<close> as
  its code. A status error whose response had no body has no \<^verbatim>\<open>error\<close> property: the
  \<^verbatim>\<open>catch\<close> block throws, and the exception leaves the function.
\<close>

theorem catch_block_counterexample:
  "libraryApiSearch \<lparr>photosToLoad = 50, searchPageSize = 100, albumPageSize = 50, level_text = ''error''\<rparr>
     [Rejects (JObj [(''name'', JStr ''RequestError''),
                     (''message'', JStr ''Error: connect ECONNREFUSED''),
                     (''error'', JObj [(''code'', JStr ''ECONNREFUSED'')])])]
     [(''albumId'', JStr ''abc'')] =
   Some (Inr \<lparr>photos = [],
              parameters = [(''albumId'', JStr ''abc''), (''pageSize'', JNum 100)],
              error = JObj [(''name'', JStr ''RequestError''), (''code'', Undefined),
                            (''message'', JStr ''Error: connect ECONNREFUSED''),
                            (''level'', JStr ''error'')]\<rparr>)
   \<and> libraryApiSearch \<lparr>photosToLoad = 50, searchPageSize = 100, albumPageSize = 50, level_text = ''error''\<rparr>
       [Rejects (JObj [(''name'', JStr ''StatusCodeError''), (''statusCode'', JNum 503),
                       (''message'', JStr ''503 - undefined'')])]
       [(''albumId'', JStr ''abc'')] =
     Some (Inl TypeError)"
  by (simp add: libraryApiSearch_def catch_error_def js_get_def js_or_def logger_error_def
        logger_throws_def logged_def Let_def)

text \<open>
  C6, amended. Let a call of either fetcher fail, after pages that keep its loop going,
  with a rejection \<open>e\<close> whose \<^verbatim>\<open>error\<close> property is neither \<^verbatim>\<open>null\<close> nor
  \<^verbatim>\<open>undefined\<close>, and let the logger print the error. Then the fetcher returns, with the
  items of those pages and with the error \<open>structured cfg e\<close>: the nested
  \<^verbatim>\<open>e.error.error\<close> when that is truthy, otherwise the object built from \<^verbatim>\<open>e.name\<close>,
  \<^verbatim>\<open>e.statusCode\<close> (as \<^verbatim>\<open>code\<close>, which may be \<^verbatim>\<open>undefined\<close>) and \<^verbatim>\<open>e.message\<close>; in
  either case with the key \<^verbatim>\<open>level\<close> that the logger has written into it if its
  \<^verbatim>\<open>message\<close> is truthy.
\<close>

theorem failure_returned_as_data:
  assumes e: "\<not> nullish e" "\<not> nullish (js_prop e ''error'')" "\<not> logger_throws cfg (caught e)"
  shows "((\<forall>x\<in>set rs. readable x)
            \<and> (\<forall>k<length rs. int (length (collected (take (Suc k) rs))) < photosToLoad cfg
                                 \<and> \<not> nullish (page_token (rs ! k)))
          \<longrightarrow> map_option (map_sum id (\<lambda>data. (photos data, error data)))
                 (libraryApiSearch cfg (map Resolves rs @ Rejects e # rest) p) =
               Some (Inr (collected rs, structured cfg e)))
         \<and> ((\<forall>x\<in>set as. listable x \<and> \<not> nullish (page_token x))
          \<longrightarrow> libraryApiGetAlbums cfg (map Resolves as @ Rejects e # rest) =
               Some (Inr \<lparr>albums = listed as, albums_error = structured cfg e\<rparr>))
         \<and> structured cfg e =
             (let v = js_or (js_prop (js_prop e ''error'') ''error'')
                            (JObj [(''name'', js_prop e ''name''),
                                   (''code'', js_prop e ''statusCode''),
                                   (''message'', js_prop e ''message'')])
              in case v of
                   JObj kvs \<Rightarrow>
                     if truthy (js_prop v ''message'')
                     then JObj (AList.update ''level'' (JStr (level_text cfg)) kvs)
                     else v
                 | _ \<Rightarrow> v)"
proof (intro conjI)
  show "structured cfg e =
             (let v = js_or (js_prop (js_prop e ''error'') ''error'')
                            (JObj [(''name'', js_prop e ''name''),
                                   (''code'', js_prop e ''statusCode''),
                                   (''message'', js_prop e ''message'')])
              in case v of
                   JObj kvs \<Rightarrow>
                     if truthy (js_prop v ''message'')
                     then JObj (AList.update ''level'' (JStr (level_text cfg)) kvs)
                     else v
                 | _ \<Rightarrow> v)"
    by (simp add: structured_def caught_def logged_def Let_def split: jsval.splits)
qed (simp_all add: libraryApiSearch_rejected libraryApiGetAlbums_rejected catch_error_structured[OF e])

theorem failure_returned_as_data_witness:
  "\<not> nullish (JObj [(''name'', JStr ''StatusCodeError''), (''statusCode'', JNum 429),
                     (''message'', JStr ''429 - quota''), (''error'', JStr ''quota'')])
   \<and> \<not> nullish (js_prop (JObj [(''name'', JStr ''StatusCodeError''), (''statusCode'', JNum 429),
                     (''message'', JStr ''429 - quota''), (''error'', JStr ''quota'')]) ''error'')
   \<and> \<not> logger_throws \<lparr>photosToLoad = 50, searchPageSize = 100, albumPageSize = 50, level_text = ''error''\<rparr>
         (caught (JObj [(''name'', JStr ''StatusCodeError''), (''statusCode'', JNum 429),
                     (''message'', JStr ''429 - quota''), (''error'', JStr ''quota'')]))
   \<and> readable (JObj [(''mediaItems'', JArr [JObj [(''mimeType'', JStr ''image/png'')]]),
                      (''nextPageToken'', JStr ''t1'')])
   \<and> listable (JObj [(''albums'', JArr [JObj [(''id'', JStr ''a1'')], Null]),
                      (''nextPageToken'', JStr ''t1'')])
   \<and> map_option (map_sum id (\<lambda>data. (photos data, error data)))
        (libraryApiSearch \<lparr>photosToLoad = 50, searchPageSize = 100, albumPageSize = 50, level_text = ''error''\<rparr>
           (map Resolves [JObj [(''mediaItems'', JArr [JObj [(''mimeType'', JStr ''image/png'')]]),
                                (''nextPageToken'', JStr ''t1'')]]
            @ Rejects (JObj [(''name'', JStr ''StatusCodeError''), (''statusCode'', JNum 429),
                             (''message'', JStr ''429 - quota''), (''error'', JStr ''quota'')]) # [])
           [(''albumId'', JStr ''abc'')]) =
      Some (Inr ([JObj [(''mimeType'', JStr ''image/png'')]],
                 JObj [(''name'', JStr ''StatusCodeError''), (''code'', JNum 429),
                       (''message'', JStr ''429 - quota''), (''level'', JStr ''error'')]))
   \<and> libraryApiGetAlbums \<lparr>photosToLoad = 50, searchPageSize = 100, albumPageSize = 50, level_text = ''error''\<rparr>
        (map Resolves [JObj [(''albums'', JArr [JObj [(''id'', JStr ''a1'')], Null]),
                             (''nextPageToken'', JStr ''t1'')]]
         @ Rejects (JObj [(''name'', JStr ''StatusCodeError''), (''statusCode'', JNum 429),
                          (''message'', JStr ''429 - quota''), (''error'', JStr ''quota'')]) # []) =
      Some (Inr \<lparr>albums = [JObj [(''id'', JStr ''a1'')]],
                 albums_error = JObj [(''name'', JStr ''StatusCodeError''), (''code'', JNum 429),
                                      (''message'', JStr ''429 - quota''), (''level'', JStr ''error'')]\<rparr>)"
  using failure_returned_as_data
    [where e = "JObj [(''name'', JStr ''StatusCodeError''), (''statusCode'', JNum 429),
                     (''message'', JStr ''429 - quota''), (''error'', JStr ''quota'')]"
       and rs = "[JObj [(''mediaItems'', JArr [JObj [(''mimeType'', JStr ''image/png'')]]),
                (''nextPageToken'', JStr ''t1'')]]"
       and cfg = "\<lparr>photosToLoad = 50, searchPageSize = 100, albumPageSize = 50, level_text = ''error''\<rparr>"
       and rest = "[]" and p = "[(''albumId'', JStr ''abc'')]"
       and as = "[JObj [(''albums'', JArr [JObj [(''id'', JStr ''a1'')], Null]),
                (''nextPageToken'', JStr ''t1'')]]"]
  by (simp add: readable_def listable_def page_items_def album_page_items_def page_token_def
        collected_def listed_def search_items_def album_items_def image_mimeType_def structured_def
        caught_def logged_def logger_throws_def js_or_def)

section \<open>Error responses\<close>

text \<open>
  The claim C9 read on a run: the first call of \<^verbatim>\<open>/loadFromAlbum\<close> is answered with
  status 401 and a body that is not JSON. The response has status 401, and its body is
  the error object itself, which has no \<^verbatim>\<open>error\<close> property.
\<close>

theorem error_body_counterexample:
  "map_option (map_sum id snd)
     (loadFromAlbum \<lparr>photosToLoad = 50, searchPageSize = 100, albumPageSize = 50, level_text = ''error''\<rparr> (start 0)
        [Rejects (JObj [(''name'', JStr ''StatusCodeError''), (''statusCode'', JNum 401),
                        (''message'', JStr ''401 - Unauthorized''), (''error'', JStr ''Unauthorized'')])]
        ''user'' (JStr ''abc'')) =
   Some (Inr \<lparr>status = JNum 401,
              body = JObj [(''name'', JStr ''StatusCodeError''), (''code'', JNum 401),
                           (''message'', JStr ''401 - Unauthorized''),
                           (''level'', JStr ''error'')]\<rparr>)
   \<and> js_prop (JObj [(''name'', JStr ''StatusCodeError''), (''code'', JNum 401),
                     (''message'', JStr ''401 - Unauthorized''),
                     (''level'', JStr ''error'')]) ''error'' = Undefined"
  by (simp add: loadFromAlbum_def search_and_return_def libraryApiSearch_def catch_error_def
        js_get_def js_or_def returnPhotos_def returnError_def logger_error_def logger_throws_def
        logged_def Let_def)

text \<open>
  C9, amended. When a fetcher returns an error to one of the four entry operations, the
  body of the response is that error object itself (not wrapped under a key
  \<^verbatim>\<open>error\<close>), and the status is the \<^verbatim>\<open>code\<close> of the error when that is truthy and 500
  otherwise. The search handlers leave the state as it was; \<^verbatim>\<open>/getAlbums\<close> removes
  the user's entry of the album cache. (An album identifier that \<^verbatim>\<open>/loadFromAlbum\<close>
  cannot log makes it throw before it searches.)
\<close>

theorem error_response:
  assumes search: "libraryApiSearch cfg replies p = Some (Inr data)" "truthy (error data)"
    and list: "libraryApiGetAlbums cfg replies' = Some (Inr adata)" "truthy (albums_error adata)"
  shows "(p = [(''filters'', filters)] \<longrightarrow>
            loadFromSearch cfg st replies userId filters =
              Some (Inr (st, \<lparr>status = js_or (js_prop (error data) ''code'') (JNum 500),
                              body = error data\<rparr>)))
       \<and> (p = [(''albumId'', albumId)] \<longrightarrow>
            loadFromAlbum cfg st replies userId albumId =
              (if to_string_throws albumId then Some (Inl TypeError)
               else Some (Inr (st, \<lparr>status = js_or (js_prop (error data) ''code'') (JNum 500),
                                    body = error data\<rparr>))))
       \<and> (\<not> truthy (or_undefined (getItem (mediaItemCache st) (clock st) userId))
            \<and> getItem (storage st) (clock st) userId = Some p \<longrightarrow>
            getQueue cfg st replies userId =
              Some (Inr (st, \<lparr>status = js_or (js_prop (error data) ''code'') (JNum 500),
                              body = error data\<rparr>)))
       \<and> (\<not> truthy (or_undefined (getItem (albumCache st) (clock st) userId)) \<longrightarrow>
            getAlbums cfg st replies' userId =
              Some (Inr (st\<lparr>albumCache := removeItem (albumCache st) userId\<rparr>,
                         \<lparr>status = js_or (js_prop (albums_error adata) ''code'') (JNum 500),
                          body = albums_error adata\<rparr>)))"
  using assms
  by (auto simp: loadFromSearch_def loadFromAlbum_def getQueue_def getAlbums_def
        search_and_return_def returnPhotos_error returnError_truthy)

theorem error_response_witness:
  "libraryApiSearch \<lparr>photosToLoad = 50, searchPageSize = 100, albumPageSize = 50, level_text = ''error''\<rparr>
     [Rejects (JObj [(''name'', JStr ''RequestError''), (''message'', JStr ''Error: ETIMEDOUT''),
                     (''error'', JObj [(''code'', JStr ''ETIMEDOUT'')])])]
     [(''albumId'', JStr ''abc'')] =
   Some (Inr \<lparr>photos = [],
              parameters = [(''albumId'', JStr ''abc''), (''pageSize'', JNum 100)],
              error = JObj [(''name'', JStr ''RequestError''), (''code'', Undefined),
                            (''message'', JStr ''Error: ETIMEDOUT''),
                            (''level'', JStr ''error'')]\<rparr>)
   \<and> libraryApiGetAlbums \<lparr>photosToLoad = 50, searchPageSize = 100, albumPageSize = 50, level_text = ''error''\<rparr>
       [Rejects (JObj [(''name'', JStr ''StatusCodeError''), (''statusCode'', JNum 403),
                       (''message'', JStr ''403''),
                       (''error'', JObj [(''error'', JObj [(''code'', JNum 403)])])])] =
     Some (Inr \<lparr>albums = [], albums_error = JObj [(''code'', JNum 403)]\<rparr>)
   \<and> loadFromAlbum \<lparr>photosToLoad = 50, searchPageSize = 100, albumPageSize = 50, level_text = ''error''\<rparr> (start 0)
       [Rejects (JObj [(''name'', JStr ''RequestError''), (''message'', JStr ''Error: ETIMEDOUT''),
                       (''error'', JObj [(''code'', JStr ''ETIMEDOUT'')])])]
       ''user'' (JStr ''abc'') =
     Some (Inr (start 0,
                \<lparr>status = JNum 500,
                 body = JObj [(''name'', JStr ''RequestError''), (''code'', Undefined),
                              (''message'', JStr ''Error: ETIMEDOUT''),
                              (''level'', JStr ''error'')]\<rparr>))
   \<and> getAlbums \<lparr>photosToLoad = 50, searchPageSize = 100, albumPageSize = 50, level_text = ''error''\<rparr> (start 0)
       [Rejects (JObj [(''name'', JStr ''StatusCodeError''), (''statusCode'', JNum 403),
                       (''message'', JStr ''403''),
                       (''error'', JObj [(''error'', JObj [(''code'', JNum 403)])])])]
       ''user'' =
     Some (Inr ((start 0)\<lparr>albumCache := removeItem (albumCache (start 0)) ''user''\<rparr>,
                \<lparr>status = JNum 403, body = JObj [(''code'', JNum 403)]\<rparr>))"
proof -
  have s: "libraryApiSearch \<lparr>photosToLoad = 50, searchPageSize = 100, albumPageSize = 50, level_text = ''error''\<rparr>
     [Rejects (JObj [(''name'', JStr ''RequestError''), (''message'', JStr ''Error: ETIMEDOUT''),
                     (''error'', JObj [(''code'', JStr ''ETIMEDOUT'')])])]
     [(''albumId'', JStr ''abc'')] =
   Some (Inr \<lparr>photos = [],
              parameters = [(''albumId'', JStr ''abc''), (''pageSize'', JNum 100)],
              error = JObj [(''name'', JStr ''RequestError''), (''code'', Undefined),
                            (''message'', JStr ''Error: ETIMEDOUT''),
                            (''level'', JStr ''error'')]\<rparr>)"
    by (simp add: libraryApiSearch_def catch_error_def js_get_def js_or_def logger_error_def
          logger_throws_def logged_def Let_def)
  have a: "libraryApiGetAlbums \<lparr>photosToLoad = 50, searchPageSize = 100, albumPageSize = 50, level_text = ''error''\<rparr>
       [Rejects (JObj [(''name'', JStr ''StatusCodeError''), (''statusCode'', JNum 403),
                       (''message'', JStr ''403''),
                       (''error'', JObj [(''error'', JObj [(''code'', JNum 403)])])])] =
     Some (Inr \<lparr>albums = [], albums_error = JObj [(''code'', JNum 403)]\<rparr>)"
    by (simp add: libraryApiGetAlbums_def catch_error_def js_get_def js_or_def logger_error_def
          logger_throws_def logged_def Let_def)
  show ?thesis
    using s a error_response[OF s _ a, where st = "start 0" and userId = "''user''"
        and albumId = "JStr ''abc''" and filters = Undefined]
    by (simp add: js_or_def getItem_def start_def create_def or_undefined_def)
qed

section \<open>Invariants of the stores\<close>

lemma consistent_start: "consistent (start t)"
  by (simp add: consistent_def start_def create_def)

lemma consistent_tick: "consistent st \<Longrightarrow> consistent (st\<lparr>clock := t\<rparr>)"
  by (simp add: consistent_def)

lemma delete_page_fields:
  "''pageToken'' \<notin> fst ` set (AList.delete ''pageSize'' (AList.delete ''pageToken'' p))"
  "''pageSize'' \<notin> fst ` set (AList.delete ''pageSize'' (AList.delete ''pageToken'' p))"
  by (auto simp: AList.delete_eq)

lemma consistent_storage:
  "consistent st \<Longrightarrow> items (storage st) u = Some (p, e) \<Longrightarrow>
   e = None \<and> ''pageToken'' \<notin> fst ` set p \<and> ''pageSize'' \<notin> fst ` set p"
  unfolding consistent_def by blast

lemma consistent_mediaItemCache:
  "consistent st \<Longrightarrow> items (mediaItemCache st) u = Some (v, e) \<Longrightarrow>
   (\<exists>xs. v = JArr xs) \<and> items (storage st) u \<noteq> None"
  unfolding consistent_def by blast

lemma consistent_albumCache:
  "consistent st \<Longrightarrow> items (albumCache st) u = Some (v, e) \<Longrightarrow> \<exists>kvs. v = JObj kvs"
  unfolding consistent_def by blast

lemma consistent_ttl:
  "consistent st \<Longrightarrow>
   ttl (mediaItemCache st) = Some 3300000 \<and> ttl (albumCache st) = Some 600000
   \<and> ttl (storage st) = None"
  unfolding consistent_def by blast

lemma returnPhotos_consistent:
  assumes "returnPhotos st userId data sp = Inr (st', res)" and c: "consistent st"
  shows "consistent st'"
proof (cases "truthy (error data)")
  case True
  with assms show ?thesis by (simp add: returnPhotos_error)
next
  case False
  let ?sp = "AList.delete ''pageSize'' (AList.delete ''pageToken'' sp)"
  have st': "st' = st\<lparr>mediaItemCache := setItemSync (mediaItemCache st) (clock st) userId (JArr (photos data)),
                      storage := setItemSync (storage st) (clock st) userId ?sp\<rparr>"
    using assms(1) False by (simp add: returnPhotos_def Let_def)
  note t = consistent_ttl[OF c]
  have 1: "ttl (mediaItemCache st') = Some 3300000 \<and> ttl (albumCache st') = Some 600000
           \<and> ttl (storage st') = None"
    using t by (simp add: st' setItemSync_def)
  have 2: "e = None \<and> ''pageToken'' \<notin> fst ` set p \<and> ''pageSize'' \<notin> fst ` set p"
    if "items (storage st') u = Some (p, e)" for u p e
  proof (cases "u = userId")
    case True
    with that t have "p = ?sp" and "e = None" by (simp_all add: st' setItemSync_def)
    then show ?thesis using delete_page_fields[of sp] by simp
  next
    case False
    with that have "items (storage st) u = Some (p, e)" by (simp add: st' setItemSync_def)
    then show ?thesis by (rule consistent_storage[OF c])
  qed
  have 3: "(\<exists>xs. v = JArr xs) \<and> items (storage st') u \<noteq> None"
    if "items (mediaItemCache st') u = Some (v, e)" for u v e
  proof (cases "u = userId")
    case True
    with that show ?thesis by (auto simp: st' setItemSync_def)
  next
    case False
    with that have "items (mediaItemCache st) u = Some (v, e)" by (simp add: st' setItemSync_def)
    from consistent_mediaItemCache[OF c this] False
    show ?thesis by (simp add: st' setItemSync_def)
  qed
  have 4: "\<exists>kvs. v = JObj kvs" if "items (albumCache st') u = Some (v, e)" for u v e
    using that consistent_albumCache[OF c, of u v e] by (simp add: st')
  show ?thesis
    unfolding consistent_def using 1 2 3 4 by blast
qed

lemma search_and_return_consistent:
  "search_and_return cfg st replies userId p = Some (Inr (st', res)) \<Longrightarrow> consistent st
   \<Longrightarrow> consistent st'"
  by (auto simp: search_and_return_def split: option.splits sum.splits
           dest: returnPhotos_consistent)

lemma albumCache_update_consistent:
  assumes c: "consistent st"
    and items': "items c' = (items (albumCache st))(userId := entry)"
    and ttl': "ttl c' = ttl (albumCache st)"
    and entry: "\<forall>v e. entry = Some (v, e) \<longrightarrow> (\<exists>kvs. v = JObj kvs)"
  shows "consistent (st\<lparr>albumCache := c'\<rparr>)"
proof -
  have 4: "\<exists>kvs. v = JObj kvs" if "items c' u = Some (v, e)" for u v e
  proof (cases "u = userId")
    case True
    with that items' entry show ?thesis by simp
  next
    case False
    with that items' have "items (albumCache st) u = Some (v, e)" by simp
    then show ?thesis by (rule consistent_albumCache[OF c])
  qed
  show ?thesis
    unfolding consistent_def
    using consistent_ttl[OF c] consistent_storage[OF c] consistent_mediaItemCache[OF c] 4 ttl'
    by auto
qed

lemma getAlbums_consistent:
  assumes "getAlbums cfg st replies userId = Some (Inr (st', res))" and c: "consistent st"
  shows "consistent st'"
proof -
  from assms(1) consider "st' = st"
    | "st' = st\<lparr>albumCache := removeItem (albumCache st) userId\<rparr>"
    | data where "st' = st\<lparr>albumCache := setItemSync (albumCache st) (clock st) userId (albums_object data)\<rparr>"
    by (auto simp: getAlbums_def Let_def split: if_splits option.splits sum.splits)
  then show ?thesis
  proof cases
    case 1
    with c show ?thesis by simp
  next
    case 2
    show ?thesis
      unfolding 2
      by (rule albumCache_update_consistent[OF c, where entry = None and userId = userId])
         (simp_all add: removeItem_def)
  next
    case 3
    show ?thesis
      unfolding 3
      by (rule albumCache_update_consistent[OF c, where userId = userId
            and entry = "Some (albums_object data, map_option (\<lambda>t. clock st + t) (ttl (albumCache st)))"])
         (simp_all add: setItemSync_def albums_object_def)
  qed
qed

lemma getQueue_consistent:
  assumes "getQueue cfg st replies userId = Some (Inr (st', res))" and "consistent st"
  shows "consistent st'"
  using assms
  by (auto simp: getQueue_def Let_def split: if_splits option.splits
           dest: search_and_return_consistent)

lemma reachable_consistent: "reachable cfg st \<Longrightarrow> consistent st"
proof (induction rule: reachable.induct)
  case (reach_start t)
  show ?case by (rule consistent_start)
next
  case (reach_tick st d)
  then show ?case by (simp add: consistent_tick)
next
  case (reach_loadFromSearch st replies userId filters st' res)
  then show ?case
    by (auto simp: loadFromSearch_def dest: search_and_return_consistent)
next
  case (reach_loadFromAlbum st replies userId albumId st' res)
  then show ?case
    by (auto simp: loadFromAlbum_def split: if_splits dest: search_and_return_consistent)
next
  case (reach_getAlbums st replies userId st' res)
  then show ?case by (auto dest: getAlbums_consistent)
next
  case (reach_getQueue st replies userId st' res)
  then show ?case by (auto dest: getQueue_consistent)
qed

text \<open>The invariant as the handlers see it, through \<open>getItem\<close>.\<close>

lemma consistent_cached:
  assumes "consistent st" and "getItem (mediaItemCache st) now u = Some v"
  shows "(\<exists>xs. v = JArr xs) \<and> (\<exists>p. getItem (storage st) now' u = Some p)"
proof -
  obtain e where e: "items (mediaItemCache st) u = Some (v, e)"
    using assms(2) by (auto simp: getItem_def split: option.splits if_splits)
  with assms(1) obtain p where "items (storage st) u = Some (p, None)" and "\<exists>xs. v = JArr xs"
    unfolding consistent_def by (metis not_Some_eq surj_pair)
  then show ?thesis by (simp add: getItem_def)
qed

lemma consistent_stored:
  assumes "consistent st" and "getItem (storage st) now u = Some p"
  shows "''pageToken'' \<notin> fst ` set p \<and> ''pageSize'' \<notin> fst ` set p"
proof -
  obtain e where "items (storage st) u = Some (p, e)"
    using assms(2) by (auto simp: getItem_def split: option.splits if_splits)
  with assms(1) show ?thesis unfolding consistent_def by blast
qed

lemma consistent_cached_albums:
  assumes "consistent st" and "getItem (albumCache st) now u = Some v"
  shows "truthy v"
proof -
  obtain e where "items (albumCache st) u = Some (v, e)"
    using assms(2) by (auto simp: getItem_def split: option.splits if_splits)
  with assms(1) obtain kvs where "v = JObj kvs" unfolding consistent_def by blast
  then show ?thesis by simp
qed

section \<open>The queue\<close>

lemma returnPhotos_success:
  assumes "\<not> truthy (error data)"
  shows "returnPhotos st userId data sp =
           Inr (st\<lparr>mediaItemCache :=
                      setItemSync (mediaItemCache st) (clock st) userId (JArr (photos data)),
                    storage :=
                      setItemSync (storage st) (clock st) userId
                        (AList.delete ''pageSize'' (AList.delete ''pageToken'' sp))\<rparr>,
                \<lparr>status = JNum 200,
                 body = JObj [(''photos'', JArr (photos data)),
                              (''parameters'',
                               JObj (AList.delete ''pageSize'' (AList.delete ''pageToken'' sp)))]\<rparr>)"
  using assms by (simp add: returnPhotos_def Let_def)

lemma getItem_setItemSync:
  "ttl c = None \<or> (\<exists>d. ttl c = Some d \<and> now' < now + d) \<Longrightarrow>
   getItem (setItemSync c now k v) now' k = Some v"
  by (auto simp: getItem_def setItemSync_def)

text \<open>A state reached by one album selection, for the examples below.\<close>

lemma reachable_after_album:
  "reachable \<lparr>photosToLoad = 50, searchPageSize = 100, albumPageSize = 50, level_text = ''error''\<rparr>
     ((start 0)\<lparr>mediaItemCache :=
                   setItemSync (mediaItemCache (start 0)) (clock (start 0)) ''user''
                     (JArr [JObj [(''mimeType'', JStr ''image/png'')]]),
                 storage :=
                   setItemSync (storage (start 0)) (clock (start 0)) ''user''
                     [(''albumId'', JStr ''abc'')]\<rparr>)"
proof -
  have "loadFromAlbum \<lparr>photosToLoad = 50, searchPageSize = 100, albumPageSize = 50, level_text = ''error''\<rparr> (start 0)
          [Resolves (JObj [(''mediaItems'', JArr [JObj [(''mimeType'', JStr ''image/png'')]])])]
          ''user'' (JStr ''abc'') =
        Some (Inr ((start 0)\<lparr>mediaItemCache :=
                   setItemSync (mediaItemCache (start 0)) (clock (start 0)) ''user''
                     (JArr [JObj [(''mimeType'', JStr ''image/png'')]]),
                 storage :=
                   setItemSync (storage (start 0)) (clock (start 0)) ''user''
                     [(''albumId'', JStr ''abc'')]\<rparr>,
                   \<lparr>status = JNum 200,
                    body = JObj [(''photos'', JArr [JObj [(''mimeType'', JStr ''image/png'')]]),
                                 (''parameters'', JObj [(''albumId'', JStr ''abc'')])]\<rparr>))"
    by (simp add: loadFromAlbum_def search_and_return_def libraryApiSearch_def search_items_def
          image_mimeType_def js_get_def returnPhotos_def Let_def)
  from reach_loadFromAlbum[OF reach_start this] show ?thesis .
qed




text \<open>
  C10. In a reachable state every user with an entry in the media-item cache has a
  record in the store of parameters. In any state where the cache has a truthy entry for
  the user, \<^verbatim>\<open>/getQueue\<close> answers with the stored parameters if the store has a record,
  and throws a \<^verbatim>\<open>TypeError\<close>, sending no response, if it has none.
\<close>

theorem getQueue_unguarded_read:
  "(reachable cfg st \<longrightarrow>
      (\<forall>u. getItem (mediaItemCache st) (clock st) u \<noteq> None \<longrightarrow>
           getItem (storage st) (clock st) u \<noteq> None))
   \<and> (truthy (or_undefined (getItem (mediaItemCache st0) (clock st0) userId))
        \<and> getItem (storage st0) (clock st0) userId = None \<longrightarrow>
          getQueue cfg st0 replies userId = Some (Inl TypeError))
   \<and> (truthy (or_undefined (getItem (mediaItemCache st0) (clock st0) userId))
        \<and> getItem (storage st0) (clock st0) userId = Some p \<longrightarrow>
          getQueue cfg st0 replies userId =
            Some (Inr (st0, \<lparr>status = JNum 200,
                             body = JObj [(''photos'',
                                           or_undefined (getItem (mediaItemCache st0) (clock st0) userId)),
                                          (''parameters'', JObj p)]\<rparr>)))"
proof (intro conjI impI allI)
  fix u
  assume "reachable cfg st" and "getItem (mediaItemCache st) (clock st) u \<noteq> None"
  then obtain v where "consistent st" and "getItem (mediaItemCache st) (clock st) u = Some v"
    by (auto dest: reachable_consistent)
  from consistent_cached[OF this, of "clock st"]
  show "getItem (storage st) (clock st) u \<noteq> None" by auto
next
  assume "truthy (or_undefined (getItem (mediaItemCache st0) (clock st0) userId))
        \<and> getItem (storage st0) (clock st0) userId = None"
  then show "getQueue cfg st0 replies userId = Some (Inl TypeError)"
    by (simp add: getQueue_def)
next
  assume "truthy (or_undefined (getItem (mediaItemCache st0) (clock st0) userId))
        \<and> getItem (storage st0) (clock st0) userId = Some p"
  then show "getQueue cfg st0 replies userId =
            Some (Inr (st0, \<lparr>status = JNum 200,
                             body = JObj [(''photos'',
                                           or_undefined (getItem (mediaItemCache st0) (clock st0) userId)),
                                          (''parameters'', JObj p)]\<rparr>))"
    by (simp add: getQueue_def)
qed

theorem getQueue_unguarded_read_witness:
  "reachable \<lparr>photosToLoad = 50, searchPageSize = 100, albumPageSize = 50, level_text = ''error''\<rparr>
     ((start 0)\<lparr>mediaItemCache :=
                   setItemSync (mediaItemCache (start 0)) (clock (start 0)) ''user''
                     (JArr [JObj [(''mimeType'', JStr ''image/png'')]]),
                 storage :=
                   setItemSync (storage (start 0)) (clock (start 0)) ''user''
                     [(''albumId'', JStr ''abc'')]\<rparr>)
   \<and> getItem (mediaItemCache ((start 0)\<lparr>mediaItemCache :=
                   setItemSync (mediaItemCache (start 0)) (clock (start 0)) ''user''
                     (JArr [JObj [(''mimeType'', JStr ''image/png'')]]),
                 storage :=
                   setItemSync (storage (start 0)) (clock (start 0)) ''user''
                     [(''albumId'', JStr ''abc'')]\<rparr>)) 0 ''user'' \<noteq> None
   \<and> getItem (storage ((start 0)\<lparr>mediaItemCache :=
                   setItemSync (mediaItemCache (start 0)) (clock (start 0)) ''user''
                     (JArr [JObj [(''mimeType'', JStr ''image/png'')]]),
                 storage :=
                   setItemSync (storage (start 0)) (clock (start 0)) ''user''
                     [(''albumId'', JStr ''abc'')]\<rparr>)) 0 ''user'' \<noteq> None
   \<and> truthy (or_undefined (getItem
        (mediaItemCache ((start 0)\<lparr>mediaItemCache :=
           setItemSync (mediaItemCache (start 0)) 0 ''user'' (JArr [])\<rparr>)) 0 ''user''))
   \<and> getItem (storage ((start 0)\<lparr>mediaItemCache :=
           setItemSync (mediaItemCache (start 0)) 0 ''user'' (JArr [])\<rparr>)) 0 ''user'' = None
   \<and> getQueue \<lparr>photosToLoad = 50, searchPageSize = 100, albumPageSize = 50, level_text = ''error''\<rparr>
        ((start 0)\<lparr>mediaItemCache :=
           setItemSync (mediaItemCache (start 0)) 0 ''user'' (JArr [])\<rparr>) [] ''user'' =
      Some (Inl TypeError)"
proof -
  let ?cfg = "\<lparr>photosToLoad = 50, searchPageSize = 100, albumPageSize = 50, level_text = ''error''\<rparr>"
  let ?st = "(start 0)\<lparr>mediaItemCache :=
                   setItemSync (mediaItemCache (start 0)) (clock (start 0)) ''user''
                     (JArr [JObj [(''mimeType'', JStr ''image/png'')]]),
                 storage :=
                   setItemSync (storage (start 0)) (clock (start 0)) ''user''
                     [(''albumId'', JStr ''abc'')]\<rparr>"
  let ?bad = "(start 0)\<lparr>mediaItemCache :=
           setItemSync (mediaItemCache (start 0)) 0 ''user'' (JArr [])\<rparr>"
  have c: "clock ?st = 0" "clock ?bad = 0" by (simp_all add: start_def)
  have hit: "getItem (mediaItemCache ?st) 0 ''user'' \<noteq> None"
    by (simp add: getItem_def setItemSync_def start_def create_def)
  have b1: "truthy (or_undefined (getItem (mediaItemCache ?bad) 0 ''user''))"
    and b2: "getItem (storage ?bad) 0 ''user'' = None"
    by (simp_all add: getItem_def setItemSync_def start_def create_def or_undefined_def)
  note inst = getQueue_unguarded_read[of ?cfg ?st ?bad "''user''" "[]", unfolded c]
  from inst reachable_after_album hit have "getItem (storage ?st) 0 ''user'' \<noteq> None"
    by blast
  moreover from inst b1 b2 have "getQueue ?cfg ?bad [] ''user'' = Some (Inl TypeError)"
    by blast
  ultimately show ?thesis
    using reachable_after_album hit b1 b2 by blast
qed

section \<open>Stored parameters\<close>

text \<open>
  C5. When \<^verbatim>\<open>returnPhotos\<close> is given data without an error, it stores for the user the
  search parameters without their \<^verbatim>\<open>pageToken\<close> and \<^verbatim>\<open>pageSize\<close>, whatever the object
  passed in contains; and in every reachable state the parameters stored for any user
  have neither key.
\<close>

theorem stored_parameters_stripped:
  "(\<not> truthy (error data) \<and> ttl (storage st) = None \<longrightarrow>
      (\<exists>st' res sp. returnPhotos st userId data searchParameter = Inr (st', res)
         \<and> getItem (storage st') (clock st') userId = Some sp
         \<and> sp = AList.delete ''pageSize'' (AList.delete ''pageToken'' searchParameter)
         \<and> ''pageToken'' \<notin> fst ` set sp \<and> ''pageSize'' \<notin> fst ` set sp))
   \<and> (reachable cfg st0 \<and> getItem (storage st0) now u = Some p \<longrightarrow>
        ''pageToken'' \<notin> fst ` set p \<and> ''pageSize'' \<notin> fst ` set p)"
proof (intro conjI impI)
  assume "\<not> truthy (error data) \<and> ttl (storage st) = None"
  then show "\<exists>st' res sp. returnPhotos st userId data searchParameter = Inr (st', res)
         \<and> getItem (storage st') (clock st') userId = Some sp
         \<and> sp = AList.delete ''pageSize'' (AList.delete ''pageToken'' searchParameter)
         \<and> ''pageToken'' \<notin> fst ` set sp \<and> ''pageSize'' \<notin> fst ` set sp"
    using delete_page_fields[of searchParameter]
    by (simp add: returnPhotos_success getItem_setItemSync)
next
  assume "reachable cfg st0 \<and> getItem (storage st0) now u = Some p"
  then show "''pageToken'' \<notin> fst ` set p" "''pageSize'' \<notin> fst ` set p"
    using consistent_stored reachable_consistent by blast+
qed

theorem stored_parameters_stripped_witness:
  "\<not> truthy (error \<lparr>photos = [], parameters = [], error = Null\<rparr>)
   \<and> ttl (storage (start 0)) = None
   \<and> map_sum id (\<lambda>(st', res). getItem (storage st') (clock st') ''user'')
       (returnPhotos (start 0) ''user'' \<lparr>photos = [], parameters = [], error = Null\<rparr>
          [(''albumId'', JStr ''abc''), (''pageSize'', JNum 100), (''pageToken'', JStr ''t1'')]) =
     Inr (Some [(''albumId'', JStr ''abc'')])"
proof -
  let ?data = "\<lparr>photos = [], parameters = [], error = Null\<rparr>"
  let ?sp = "[(''albumId'', JStr ''abc''), (''pageSize'', JNum 100), (''pageToken'', JStr ''t1'')]"
  have h: "\<not> truthy (error ?data)" "ttl (storage (start 0)) = None"
    by (simp_all add: start_def create_def)
  with stored_parameters_stripped[of ?data "start 0" "''user''" ?sp]
  obtain st' res where "returnPhotos (start 0) ''user'' ?data ?sp = Inr (st', res)"
    and "getItem (storage st') (clock st') ''user'' =
           Some (AList.delete ''pageSize'' (AList.delete ''pageToken'' ?sp))"
    by blast
  then show ?thesis using h by simp
qed

section \<open>Expiry\<close>

text \<open>
  C7. In a reachable state, a value set in the media-item cache at the instant \<open>now\<close> is
  what a read of the same key returns at any instant before \<open>now\<close> plus 55 minutes, and a
  read at any instant after that returns nothing; the same holds for the album cache
  with 10 minutes. Nothing has to happen between the set and the read.
\<close>

theorem cache_round_trip:
  assumes "reachable cfg st"
  shows "(now' < now + 55 * 60 * 1000 \<longrightarrow>
            getItem (setItemSync (mediaItemCache st) now u v) now' u = Some v)
       \<and> (now + 55 * 60 * 1000 < now' \<longrightarrow>
            getItem (setItemSync (mediaItemCache st) now u v) now' u = None)
       \<and> (now' < now + 10 * 60 * 1000 \<longrightarrow>
            getItem (setItemSync (albumCache st) now u v) now' u = Some v)
       \<and> (now + 10 * 60 * 1000 < now' \<longrightarrow>
            getItem (setItemSync (albumCache st) now u v) now' u = None)"
  using consistent_ttl[OF reachable_consistent[OF assms]]
  by (simp add: getItem_def setItemSync_def)

theorem cache_round_trip_witness:
  "reachable \<lparr>photosToLoad = 50, searchPageSize = 100, albumPageSize = 50, level_text = ''error''\<rparr> (start 0)
   \<and> getItem (setItemSync (mediaItemCache (start 0)) 1000 ''user'' (JArr [])) 3300999 ''user'' = Some (JArr [])
   \<and> getItem (setItemSync (mediaItemCache (start 0)) 1000 ''user'' (JArr [])) 3301001 ''user'' = None
   \<and> getItem (setItemSync (albumCache (start 0)) 1000 ''user'' (JObj [])) 600999 ''user'' = Some (JObj [])
   \<and> getItem (setItemSync (albumCache (start 0)) 1000 ''user'' (JObj [])) 601001 ''user'' = None"
  using cache_round_trip[OF reach_start[of "\<lparr>photosToLoad = 50, searchPageSize = 100, albumPageSize = 50, level_text = ''error''\<rparr>" 0], where now' = 3300999 and now = 1000 and u = "''user''"
          and v = "JArr []"]
        cache_round_trip[OF reach_start[of "\<lparr>photosToLoad = 50, searchPageSize = 100, albumPageSize = 50, level_text = ''error''\<rparr>" 0], where now' = 3301001 and now = 1000 and u = "''user''"
          and v = "JArr []"]
        cache_round_trip[OF reach_start[of "\<lparr>photosToLoad = 50, searchPageSize = 100, albumPageSize = 50, level_text = ''error''\<rparr>" 0], where now' = 600999 and now = 1000 and u = "''user''"
          and v = "JObj []"]
        cache_round_trip[OF reach_start[of "\<lparr>photosToLoad = 50, searchPageSize = 100, albumPageSize = 50, level_text = ''error''\<rparr>" 0], where now' = 601001 and now = 1000 and u = "''user''"
          and v = "JObj []"]
        reach_start[of "\<lparr>photosToLoad = 50, searchPageSize = 100, albumPageSize = 50, level_text = ''error''\<rparr>" 0]
  by simp

section \<open>The album list\<close>

text \<open>
  The claim C8 read on two runs. The user's entry of the album cache has expired and the
  listing is answered with status 503 and no body: the \<^verbatim>\<open>catch\<close> block throws, the
  handler sends no response and removes nothing, and the entry stays in the store. A
  page whose \<^verbatim>\<open>albums\<close> is not an array has no \<^verbatim>\<open>filter\<close>, and the handler throws as
  well.
\<close>

theorem getAlbums_counterexample:
  "getItem (albumCache ((start 0)\<lparr>albumCache :=
               setItemSync (albumCache (start 0)) 0 ''user'' (JObj [(''albums'', JArr []), (''error'', Null)]),
             clock := 600000\<rparr>)) 600000 ''user'' = None
   \<and> items (albumCache ((start 0)\<lparr>albumCache :=
               setItemSync (albumCache (start 0)) 0 ''user'' (JObj [(''albums'', JArr []), (''error'', Null)]),
             clock := 600000\<rparr>)) ''user'' \<noteq> None
   \<and> getAlbums \<lparr>photosToLoad = 50, searchPageSize = 100, albumPageSize = 50, level_text = ''error''\<rparr>
       ((start 0)\<lparr>albumCache :=
               setItemSync (albumCache (start 0)) 0 ''user'' (JObj [(''albums'', JArr []), (''error'', Null)]),
             clock := 600000\<rparr>)
       [Rejects (JObj [(''name'', JStr ''StatusCodeError''), (''statusCode'', JNum 503),
                       (''message'', JStr ''503 - undefined'')])]
       ''user'' = Some (Inl TypeError)
   \<and> getAlbums \<lparr>photosToLoad = 50, searchPageSize = 100, albumPageSize = 50, level_text = ''error''\<rparr>
       (start 0) [Resolves (JObj [(''albums'', JStr ''none'')])] ''user'' = Some (Inl TypeError)"
  by (simp add: getAlbums_def libraryApiGetAlbums_def album_items_def catch_error_def js_get_def
        getItem_def setItemSync_def start_def create_def or_undefined_def)

text \<open>A state reached by one listing and the passing of ten minutes, for the example below.\<close>

lemma reachable_after_listing:
  "reachable \<lparr>photosToLoad = 50, searchPageSize = 100, albumPageSize = 50, level_text = ''error''\<rparr>
     ((start 0)\<lparr>albumCache :=
                   setItemSync (albumCache (start 0)) (clock (start 0)) ''user''
                     (JObj [(''albums'', JArr [JObj [(''id'', JStr ''a1'')]]), (''error'', Null)]),
                 clock := 600000\<rparr>)"
proof -
  let ?cfg = "\<lparr>photosToLoad = 50, searchPageSize = 100, albumPageSize = 50, level_text = ''error''\<rparr>"
  let ?st = "(start 0)\<lparr>albumCache :=
                   setItemSync (albumCache (start 0)) (clock (start 0)) ''user''
                     (JObj [(''albums'', JArr [JObj [(''id'', JStr ''a1'')]]), (''error'', Null)])\<rparr>"
  have "getAlbums ?cfg (start 0) [Resolves (JObj [(''albums'', JArr [JObj [(''id'', JStr ''a1'')]])])]
          ''user'' =
        Some (Inr (?st, \<lparr>status = JNum 200,
                         body = JObj [(''albums'', JArr [JObj [(''id'', JStr ''a1'')]]),
                                      (''error'', Null)]\<rparr>))"
    by (simp add: getAlbums_def libraryApiGetAlbums_def album_items_def js_get_def albums_object_def
          getItem_def start_def create_def or_undefined_def)
  from reach_tick[OF reach_getAlbums[OF reach_start this], of 600000]
  show ?thesis by (simp add: start_def)
qed

text \<open>
  C8, amended. In a reachable state \<^verbatim>\<open>/getAlbums\<close> answers with the user's entry of the
  album cache when there is one. When there is none, it lists: through pages \<open>rs\<close> that
  are listed without a throw and carry a token, however many albums they hold, up to the
  first page \<open>r\<close> without one, each request after the first carrying the token of the
  page before it; the answer is 200 with the truthy albums of all these pages in order,
  and it is cached for the user. When a call of the listing is rejected with a value
  whose \<^verbatim>\<open>error\<close> property is neither \<^verbatim>\<open>null\<close> nor \<^verbatim>\<open>undefined\<close> and that the logger
  prints, the answer carries the error built from it, with its code as status or 500,
  and the user's entry is removed from the album cache; the same holds whenever the
  listing returns an error.
\<close>

theorem getAlbums_contract:
  assumes "reachable cfg st"
  shows "(\<forall>cachedAlbums. getItem (albumCache st) (clock st) userId = Some cachedAlbums \<longrightarrow>
            getAlbums cfg st replies userId =
              Some (Inr (st, \<lparr>status = JNum 200, body = cachedAlbums\<rparr>)))
       \<and> (getItem (albumCache st) (clock st) userId = None
            \<and> (\<forall>x\<in>set rs. listable x \<and> \<not> nullish (page_token x))
            \<and> listable r \<and> nullish (page_token r) \<longrightarrow>
            (\<exists>st'. getAlbums cfg st (map Resolves (rs @ [r]) @ rest) userId =
                     Some (Inr (st', \<lparr>status = JNum 200,
                                      body = JObj [(''albums'', JArr (listed (rs @ [r]))),
                                                   (''error'', Null)]\<rparr>))
                  \<and> getItem (albumCache st') (clock st') userId =
                      Some (JObj [(''albums'', JArr (listed (rs @ [r]))), (''error'', Null)]))
            \<and> albums_queried cfg (map Resolves (rs @ [r]) @ rest) =
                Some (requests [(''pageSize'', JNum (albumPageSize cfg))] rs))
       \<and> (getItem (albumCache st) (clock st) userId = None
            \<and> (\<forall>x\<in>set rs. listable x \<and> \<not> nullish (page_token x))
            \<and> \<not> nullish e \<and> \<not> nullish (js_prop e ''error'') \<and> \<not> logger_throws cfg (caught e) \<longrightarrow>
            getAlbums cfg st (map Resolves rs @ Rejects e # rest) userId =
              Some (Inr (st\<lparr>albumCache := removeItem (albumCache st) userId\<rparr>,
                         \<lparr>status = js_or (js_prop (structured cfg e) ''code'') (JNum 500),
                          body = structured cfg e\<rparr>))
            \<and> items (albumCache (st\<lparr>albumCache := removeItem (albumCache st) userId\<rparr>)) userId = None)
       \<and> (\<forall>data. getItem (albumCache st) (clock st) userId = None
                  \<and> libraryApiGetAlbums cfg replies = Some (Inr data)
                  \<and> truthy (albums_error data) \<longrightarrow>
            (\<exists>st'. getAlbums cfg st replies userId =
                     Some (Inr (st', \<lparr>status = js_or (js_prop (albums_error data) ''code'') (JNum 500),
                                      body = albums_error data\<rparr>))
                  \<and> items (albumCache st') userId = None))
       \<and> (\<forall>x xs. truthy x \<and> js_prop x ''albums'' = JArr xs \<longrightarrow>
             album_page_items x = filter truthy xs)"
proof (intro conjI allI impI)
  note c = reachable_consistent[OF assms]
  {
    fix cachedAlbums
    assume hit: "getItem (albumCache st) (clock st) userId = Some cachedAlbums"
    from consistent_cached_albums[OF c hit] hit
    show "getAlbums cfg st replies userId =
              Some (Inr (st, \<lparr>status = JNum 200, body = cachedAlbums\<rparr>))"
      by (simp add: getAlbums_def or_undefined_def)
  }
  {
    assume h: "getItem (albumCache st) (clock st) userId = None
            \<and> (\<forall>x\<in>set rs. listable x \<and> \<not> nullish (page_token x))
            \<and> listable r \<and> nullish (page_token r)"
    let ?body = "JObj [(''albums'', JArr (listed (rs @ [r]))), (''error'', Null)]"
    let ?st' = "st\<lparr>albumCache := setItemSync (albumCache st) (clock st) userId ?body\<rparr>"
    have "libraryApiGetAlbums cfg (map Resolves rs @ Resolves r # rest) =
            Some (Inr \<lparr>albums = listed (rs @ [r]), albums_error = Null\<rparr>)"
      using h by (intro libraryApiGetAlbums_last) simp_all
    with h have "getAlbums cfg st (map Resolves (rs @ [r]) @ rest) userId =
                     Some (Inr (?st', \<lparr>status = JNum 200, body = ?body\<rparr>))"
      by (simp add: getAlbums_def or_undefined_def albums_object_def)
    moreover have "getItem (albumCache ?st') (clock ?st') userId = Some ?body"
      using consistent_ttl[OF c] by (simp add: getItem_setItemSync)
    ultimately
    show "\<exists>st'. getAlbums cfg st (map Resolves (rs @ [r]) @ rest) userId =
                     Some (Inr (st', \<lparr>status = JNum 200, body = ?body\<rparr>))
                  \<and> getItem (albumCache st') (clock st') userId = Some ?body"
      by blast
    have "albums_queried cfg (map Resolves rs @ Resolves r # rest) =
                Some (requests [(''pageSize'', JNum (albumPageSize cfg))] rs)"
      using h by (intro libraryApiGetAlbums_last) simp_all
    then show "albums_queried cfg (map Resolves (rs @ [r]) @ rest) =
                Some (requests [(''pageSize'', JNum (albumPageSize cfg))] rs)"
      by simp
  }
  {
    assume h: "getItem (albumCache st) (clock st) userId = None
            \<and> (\<forall>x\<in>set rs. listable x \<and> \<not> nullish (page_token x))
            \<and> \<not> nullish e \<and> \<not> nullish (js_prop e ''error'') \<and> \<not> logger_throws cfg (caught e)"
    then have "libraryApiGetAlbums cfg (map Resolves rs @ Rejects e # rest) =
                 Some (Inr \<lparr>albums = listed rs, albums_error = structured cfg e\<rparr>)"
      by (simp add: libraryApiGetAlbums_rejected catch_error_structured)
    with h show "getAlbums cfg st (map Resolves rs @ Rejects e # rest) userId =
              Some (Inr (st\<lparr>albumCache := removeItem (albumCache st) userId\<rparr>,
                         \<lparr>status = js_or (js_prop (structured cfg e) ''code'') (JNum 500),
                          body = structured cfg e\<rparr>))"
      by (simp add: getAlbums_def or_undefined_def returnError_truthy structured_truthy)
    show "items (albumCache (st\<lparr>albumCache := removeItem (albumCache st) userId\<rparr>)) userId = None"
      by (simp add: removeItem_def)
  }
  {
    fix data
    assume h: "getItem (albumCache st) (clock st) userId = None
                  \<and> libraryApiGetAlbums cfg replies = Some (Inr data)
                  \<and> truthy (albums_error data)"
    let ?st' = "st\<lparr>albumCache := removeItem (albumCache st) userId\<rparr>"
    from h have "getAlbums cfg st replies userId =
                     Some (Inr (?st', \<lparr>status = js_or (js_prop (albums_error data) ''code'') (JNum 500),
                                      body = albums_error data\<rparr>))"
      by (simp add: getAlbums_def or_undefined_def returnError_truthy)
    moreover have "items (albumCache ?st') userId = None"
      by (simp add: removeItem_def)
    ultimately
    show "\<exists>st'. getAlbums cfg st replies userId =
                     Some (Inr (st', \<lparr>status = js_or (js_prop (albums_error data) ''code'') (JNum 500),
                                      body = albums_error data\<rparr>))
                  \<and> items (albumCache st') userId = None"
      by blast
  }
  {
    fix x xs
    assume "truthy x \<and> js_prop x ''albums'' = JArr xs"
    then show "album_page_items x = filter truthy xs"
      by (simp add: album_page_items_array)
  }
qed


theorem getAlbums_contract_witness:
  "reachable \<lparr>photosToLoad = 50, searchPageSize = 100, albumPageSize = 50, level_text = ''error''\<rparr> (start 0)
   \<and> getItem (albumCache (start 0)) (clock (start 0)) ''user'' = None
   \<and> listable (JObj [(''albums'', JArr [JObj [(''id'', JStr ''a1'')], Null]),
                      (''nextPageToken'', JStr ''t1'')])
   \<and> \<not> nullish (page_token (JObj [(''albums'', JArr [JObj [(''id'', JStr ''a1'')], Null]),
                      (''nextPageToken'', JStr ''t1'')]))
   \<and> listable (JObj [(''albums'', JArr [JObj [(''id'', JStr ''a2'')]])])
   \<and> nullish (page_token (JObj [(''albums'', JArr [JObj [(''id'', JStr ''a2'')]])]))
   \<and> map_option (map_sum id snd)
        (getAlbums \<lparr>photosToLoad = 50, searchPageSize = 100, albumPageSize = 50, level_text = ''error''\<rparr>
           (start 0)
           [Resolves (JObj [(''albums'', JArr [JObj [(''id'', JStr ''a1'')], Null]),
                            (''nextPageToken'', JStr ''t1'')]),
            Resolves (JObj [(''albums'', JArr [JObj [(''id'', JStr ''a2'')]])])]
           ''user'') =
      Some (Inr \<lparr>status = JNum 200,
                 body = JObj [(''albums'', JArr [JObj [(''id'', JStr ''a1'')], JObj [(''id'', JStr ''a2'')]]),
                              (''error'', Null)]\<rparr>)
   \<and> albums_queried \<lparr>photosToLoad = 50, searchPageSize = 100, albumPageSize = 50, level_text = ''error''\<rparr>
        [Resolves (JObj [(''albums'', JArr [JObj [(''id'', JStr ''a1'')], Null]),
                         (''nextPageToken'', JStr ''t1'')]),
         Resolves (JObj [(''albums'', JArr [JObj [(''id'', JStr ''a2'')]])])] =
      Some [[(''pageSize'', JNum 50)], [(''pageSize'', JNum 50), (''pageToken'', JStr ''t1'')]]
   \<and> reachable \<lparr>photosToLoad = 50, searchPageSize = 100, albumPageSize = 50, level_text = ''error''\<rparr>
        ((start 0)\<lparr>albumCache :=
                   setItemSync (albumCache (start 0)) (clock (start 0)) ''user''
                     (JObj [(''albums'', JArr [JObj [(''id'', JStr ''a1'')]]), (''error'', Null)]),
                 clock := 600000\<rparr>)
   \<and> items (albumCache ((start 0)\<lparr>albumCache :=
                   setItemSync (albumCache (start 0)) (clock (start 0)) ''user''
                     (JObj [(''albums'', JArr [JObj [(''id'', JStr ''a1'')]]), (''error'', Null)]),
                 clock := 600000\<rparr>)) ''user'' \<noteq> None
   \<and> getItem (albumCache ((start 0)\<lparr>albumCache :=
                   setItemSync (albumCache (start 0)) (clock (start 0)) ''user''
                     (JObj [(''albums'', JArr [JObj [(''id'', JStr ''a1'')]]), (''error'', Null)]),
                 clock := 600000\<rparr>)) 600000 ''user'' = None
   \<and> \<not> logger_throws \<lparr>photosToLoad = 50, searchPageSize = 100, albumPageSize = 50, level_text = ''error''\<rparr>
         (caught (JObj [(''name'', JStr ''StatusCodeError''), (''statusCode'', JNum 503),
                        (''message'', JStr ''503 - busy''), (''error'', JStr ''busy'')]))
   \<and> map_option (map_sum id (\<lambda>(st', res). (items (albumCache st') ''user'', res)))
        (getAlbums \<lparr>photosToLoad = 50, searchPageSize = 100, albumPageSize = 50, level_text = ''error''\<rparr>
           ((start 0)\<lparr>albumCache :=
                   setItemSync (albumCache (start 0)) (clock (start 0)) ''user''
                     (JObj [(''albums'', JArr [JObj [(''id'', JStr ''a1'')]]), (''error'', Null)]),
                 clock := 600000\<rparr>)
           [Rejects (JObj [(''name'', JStr ''StatusCodeError''), (''statusCode'', JNum 503),
                           (''message'', JStr ''503 - busy''), (''error'', JStr ''busy'')])]
           ''user'') =
      Some (Inr (None,
                 \<lparr>status = JNum 503,
                  body = JObj [(''name'', JStr ''StatusCodeError''), (''code'', JNum 503),
                               (''message'', JStr ''503 - busy''), (''level'', JStr ''error'')]\<rparr>))"
proof -
  let ?cfg = "\<lparr>photosToLoad = 50, searchPageSize = 100, albumPageSize = 50, level_text = ''error''\<rparr>"
  let ?p1 = "JObj [(''albums'', JArr [JObj [(''id'', JStr ''a1'')], Null]),
                      (''nextPageToken'', JStr ''t1'')]"
  let ?p2 = "JObj [(''albums'', JArr [JObj [(''id'', JStr ''a2'')]])]"
  let ?st = "(start 0)\<lparr>albumCache :=
                   setItemSync (albumCache (start 0)) (clock (start 0)) ''user''
                     (JObj [(''albums'', JArr [JObj [(''id'', JStr ''a1'')]]), (''error'', Null)]),
                 clock := 600000\<rparr>"
  let ?e = "JObj [(''name'', JStr ''StatusCodeError''), (''statusCode'', JNum 503),
                  (''message'', JStr ''503 - busy''), (''error'', JStr ''busy'')]"
  have fresh: "reachable ?cfg (start 0)" by (rule reach_start)
  have miss: "getItem (albumCache (start 0)) (clock (start 0)) ''user'' = None"
    by (simp add: getItem_def start_def create_def)
  have p1: "listable ?p1" "\<not> nullish (page_token ?p1)"
    and p2: "listable ?p2" "nullish (page_token ?p2)"
    by (simp_all add: listable_def album_items_def page_token_def)
  have l: "listed ([?p1] @ [?p2]) = [JObj [(''id'', JStr ''a1'')], JObj [(''id'', JStr ''a2'')]]"
    by (simp add: listed_def album_page_items_def album_items_def)
  have q: "requests [(''pageSize'', JNum (albumPageSize ?cfg))] [?p1] =
             [[(''pageSize'', JNum 50)], [(''pageSize'', JNum 50), (''pageToken'', JStr ''t1'')]]"
    by (simp add: requests_def page_token_def)
  have pre: "getItem (albumCache (start 0)) (clock (start 0)) ''user'' = None
            \<and> (\<forall>x\<in>set [?p1]. listable x \<and> \<not> nullish (page_token x))
            \<and> listable ?p2 \<and> nullish (page_token ?p2)"
    using miss p1 p2 by simp
  note success = getAlbums_contract[OF fresh, where userId = "''user''" and rs = "[?p1]" and r = ?p2
         and rest = "[]", THEN conjunct2, THEN conjunct1, THEN mp, OF pre]
  from success obtain st' where "getAlbums ?cfg (start 0) (map Resolves ([?p1] @ [?p2]) @ []) ''user'' =
                     Some (Inr (st', \<lparr>status = JNum 200,
                                      body = JObj [(''albums'', JArr (listed ([?p1] @ [?p2]))),
                                                   (''error'', Null)]\<rparr>))"
    by blast
  then have a: "map_option (map_sum id snd)
        (getAlbums ?cfg (start 0) [Resolves ?p1, Resolves ?p2] ''user'') =
      Some (Inr \<lparr>status = JNum 200,
                 body = JObj [(''albums'', JArr [JObj [(''id'', JStr ''a1'')], JObj [(''id'', JStr ''a2'')]]),
                              (''error'', Null)]\<rparr>)"
    unfolding l by simp
  from success have b: "albums_queried ?cfg [Resolves ?p1, Resolves ?p2] =
      Some [[(''pageSize'', JNum 50)], [(''pageSize'', JNum 50), (''pageToken'', JStr ''t1'')]]"
    unfolding q by simp
  have old: "items (albumCache ?st) ''user'' \<noteq> None"
    and expired: "getItem (albumCache ?st) 600000 ''user'' = None"
    by (simp_all add: getItem_def setItemSync_def start_def create_def)
  have c: "clock ?st = 600000" by simp
  have quiet: "\<not> logger_throws ?cfg (caught ?e)"
    by (simp add: logger_throws_def caught_def logged_def js_or_def)
  have s: "structured ?cfg ?e =
             JObj [(''name'', JStr ''StatusCodeError''), (''code'', JNum 503),
                   (''message'', JStr ''503 - busy''), (''level'', JStr ''error'')]"
    by (simp add: structured_def caught_def logged_def js_or_def)
  have pre': "getItem (albumCache ?st) (clock ?st) ''user'' = None
            \<and> (\<forall>x\<in>set []. listable x \<and> \<not> nullish (page_token x))
            \<and> \<not> nullish ?e \<and> \<not> nullish (js_prop ?e ''error'') \<and> \<not> logger_throws ?cfg (caught ?e)"
    using expired quiet unfolding c by simp
  note failure = getAlbums_contract[OF reachable_after_listing, where userId = "''user''" and rs = "[]"
         and e = ?e and rest = "[]", THEN conjunct2, THEN conjunct2, THEN conjunct1, THEN mp, OF pre']
  from failure have d: "map_option (map_sum id (\<lambda>(st', res). (items (albumCache st') ''user'', res)))
        (getAlbums ?cfg ?st [Rejects ?e] ''user'') =
      Some (Inr (None,
                 \<lparr>status = JNum 503,
                  body = JObj [(''name'', JStr ''StatusCodeError''), (''code'', JNum 503),
                               (''message'', JStr ''503 - busy''), (''level'', JStr ''error'')]\<rparr>))"
    unfolding s by (simp add: js_or_def)
  show ?thesis
    using fresh miss p1 p2 a b reachable_after_listing old expired quiet d by blast
qed

end
